theory Spec2Isabelle
  imports Main
begin

section \<open>The browser-automation capability\<close>

text \<open>
  The script \<^verbatim>\<open>webclicker_auto_fixed.py\<close> is a control loop over a Selenium driver.
  The driver and the page it shows are not code of the script: they are taken as a
  parameter. A \<open>driver\<close> value is one snapshot of the page as the script can see it:
  what each \<^verbatim>\<open>find_elements\<close> query answers, and for each element handle what
  reading its text or an attribute, clicking it or typing into it answers. Every such
  operation either returns or raises an exception of the driver.
\<close>

text \<open>
  The exception classes the script names or meets; \<open>WebDriverException\<close> stands for any
  other exception of the driver, with its message.
\<close>

datatype exn =
    TimeoutException
  | NoSuchElementException
  | StaleElementReferenceException
  | ElementNotInteractableException
  | WebDriverException string

datatype By = XPATH | CSS_SELECTOR | TAG_NAME

record element =
  ident :: nat
  elem_text :: "exn + string"
  get_attribute :: "string \<Rightarrow> exn + string option"
  click :: "exn + unit"
  send_keys :: "string \<Rightarrow> exn + unit"

record driver =
  find_elements :: "By \<Rightarrow> string \<Rightarrow> exn + element list"

subsection \<open>Effects: the calls made on the driver, the log, the sleeps\<close>

datatype level = INFO | WARNING | ERROR

text \<open>One constructor for each \<^verbatim>\<open>logger\<close> call of the functions modelled below.\<close>

datatype msg =
    NoCredentials             \<comment> \<open>"No login credentials provided, skipping login"\<close>
  | AttemptingLogin           \<comment> \<open>"Attempting to log in"\<close>
  | LoginSuccessful           \<comment> \<open>"Login successful"\<close>
  | NoLoginForm               \<comment> \<open>"Could not identify login form elements"\<close>
  | LoginFailed exn           \<comment> \<open>"Login failed: {e}"\<close>
  | ErrorCheckingPoll exn     \<comment> \<open>"Error checking for active poll: {e}"\<close>
  | FoundChoices nat          \<comment> \<open>"Found {len(choices)} answer choices"\<close>
  | ErrorGettingChoices exn   \<comment> \<open>"Error getting answer choices: {e}"\<close>
  | NoChoicesAvailable        \<comment> \<open>"No answer choices available"\<close>
  | RandomlySelected string   \<comment> \<open>"Randomly selected answer: {choice_id}"\<close>
  | ClickedAnswer string      \<comment> \<open>"Successfully clicked on answer {choice_id}"\<close>
  | ErrorSelecting exn        \<comment> \<open>"Error selecting answer choice: {e}"\<close>
  | ActivePollDetected        \<comment> \<open>"Active poll detected!"\<close>
  | PollAnswered              \<comment> \<open>"Poll answered. Waiting for next poll..."\<close>
  | ActiveButNoChoices        \<comment> \<open>"Poll is active but no answer choices found"\<close>
  | NoActivePoll              \<comment> \<open>"No active poll. Waiting for next poll..."\<close>

datatype event =
    FindElements By string
  | GetText element
  | GetAttribute element string
  | Click element
  | SendKeys element string
  | Log level msg
  | Sleep nat

text \<open>
  A computation of the script yields the events it performed, in order, and either the
  exception it raised (\<open>Inl\<close>) or its value (\<open>Inr\<close>).
\<close>

type_synonym 'a res = "event list \<times> (exn + 'a)"

definition ret :: "'a \<Rightarrow> 'a res" where
  "ret x = ([], Inr x)"

definition andthen :: "'a res \<Rightarrow> ('a \<Rightarrow> 'b res) \<Rightarrow> 'b res" where
  "andthen m f =
     (case m of
        (tr, Inl e) \<Rightarrow> (tr, Inl e)
      | (tr, Inr x) \<Rightarrow> (case f x of (tr', r) \<Rightarrow> (tr @ tr', r)))"

text \<open>
  \<^verbatim>\<open>try: body except <classes> as e: handler\<close>; \<open>catches\<close> says which exceptions
  the clause names.
\<close>

definition try_except :: "'a res \<Rightarrow> (exn \<Rightarrow> bool) \<Rightarrow> (exn \<Rightarrow> 'a res) \<Rightarrow> 'a res" where
  "try_except body catches handler =
     (case body of
        (tr, Inl e) \<Rightarrow>
          (if catches e then (case handler e of (tr', r) \<Rightarrow> (tr @ tr', r)) else (tr, Inl e))
      | (tr, Inr x) \<Rightarrow> (tr, Inr x))"

text \<open>
  \<^verbatim>\<open>except Exception\<close>. What a driver operation raises is an instance of
  \<^verbatim>\<open>Exception\<close> (selenium's \<^verbatim>\<open>WebDriverException\<close> and its subclasses), so the
  clause catches every value of \<open>exn\<close>. An interrupt of the interpreter
  (\<^verbatim>\<open>KeyboardInterrupt\<close>) is not the result of a driver operation and is not modelled.
\<close>

definition any_Exception :: "exn \<Rightarrow> bool" where
  "any_Exception e = True"

definition call_find_elements :: "driver \<Rightarrow> By \<Rightarrow> string \<Rightarrow> element list res" where
  "call_find_elements d b q = ([FindElements b q], find_elements d b q)"

definition read_text :: "element \<Rightarrow> string res" where
  "read_text e = ([GetText e], elem_text e)"

definition read_attribute :: "element \<Rightarrow> string \<Rightarrow> string option res" where
  "read_attribute e n = ([GetAttribute e n], get_attribute e n)"

definition do_click :: "element \<Rightarrow> unit res" where
  "do_click e = ([Click e], click e)"

definition do_send_keys :: "element \<Rightarrow> string \<Rightarrow> unit res" where
  "do_send_keys e s = ([SendKeys e s], send_keys e s)"

definition log :: "level \<Rightarrow> msg \<Rightarrow> unit res" where
  "log l m = ([Log l m], Inr ())"

text \<open>The click attempts and the driver calls among the events of a computation.\<close>

fun clicks :: "event list \<Rightarrow> element list" where
  "clicks [] = []"
| "clicks (Click e # tr) = e # clicks tr"
| "clicks (_ # tr) = clicks tr"

fun is_driver_call :: "event \<Rightarrow> bool" where
  "is_driver_call (Log _ _) = False"
| "is_driver_call (Sleep _) = False"
| "is_driver_call _ = True"

definition driver_calls :: "event list \<Rightarrow> event list" where
  "driver_calls tr = filter is_driver_call tr"

fun is_form_action :: "event \<Rightarrow> bool" where
  "is_form_action (Click _) = True"
| "is_form_action (SendKeys _ _) = True"
| "is_form_action _ = False"

subsection \<open>Strings\<close>

text \<open>
  A string is the list of the bytes of its UTF-8 encoding. Equality of strings and
  substring search (\<^verbatim>\<open>sub in s\<close>) are then equality and search on the bytes.
\<close>

fun starts_with :: "string \<Rightarrow> string \<Rightarrow> bool" where
  "starts_with s [] = True"
| "starts_with [] (c # sub) = False"
| "starts_with (a # s) (c # sub) = (a = c \<and> starts_with s sub)"

fun str_contains :: "string \<Rightarrow> string \<Rightarrow> bool" where
  "str_contains [] sub = (sub = [])"
| "str_contains (a # s) sub = (starts_with (a # s) sub \<or> str_contains s sub)"

text \<open>
  The characters for which \<^verbatim>\<open>str.isspace()\<close> holds, each as its UTF-8 bytes:
  U+0009 to U+000D, U+001C to U+0020, U+0085, U+00A0, U+1680, U+2000 to U+200A, U+2028,
  U+2029, U+202F, U+205F and U+3000.
\<close>

definition whitespace :: "string list" where
  "whitespace =
     map (\<lambda>c. [c])
       [CHR 0x09, CHR 0x0A, CHR 0x0B, CHR 0x0C, CHR 0x0D,
        CHR 0x1C, CHR 0x1D, CHR 0x1E, CHR 0x1F, CHR 0x20]
     @ [[CHR 0xC2, CHR 0x85], [CHR 0xC2, CHR 0xA0], [CHR 0xE1, CHR 0x9A, CHR 0x80]]
     @ map (\<lambda>c. [CHR 0xE2, CHR 0x80, c])
       [CHR 0x80, CHR 0x81, CHR 0x82, CHR 0x83, CHR 0x84, CHR 0x85, CHR 0x86, CHR 0x87,
        CHR 0x88, CHR 0x89, CHR 0x8A, CHR 0xA8, CHR 0xA9, CHR 0xAF]
     @ [[CHR 0xE2, CHR 0x81, CHR 0x9F], [CHR 0xE3, CHR 0x80, CHR 0x80]]"

text \<open>
  What follows the first character of \<open>s\<close> when that character is one of \<open>ws\<close>, and
  the removal of all leading characters of \<open>ws\<close>.
\<close>

fun after_space :: "string list \<Rightarrow> string \<Rightarrow> string option" where
  "after_space [] s = None"
| "after_space (w # ws) s =
     (if w \<noteq> [] \<and> starts_with s w then Some (drop (length w) s) else after_space ws s)"

function lstrip_with :: "string list \<Rightarrow> string \<Rightarrow> string" where
  "lstrip_with ws s =
     (case after_space ws s of None \<Rightarrow> s | Some rest \<Rightarrow> lstrip_with ws rest)"
  by pat_completeness auto
termination
proof (relation "measure (\<lambda>(ws, s). length s)")
  show "wf (measure (\<lambda>(ws, s). length s))"
    by simp
next
  fix ws :: "string list" and s rest :: string
  assume a: "after_space ws s = Some rest"
  have sw: "starts_with t w \<Longrightarrow> length w \<le> length t" for t w
    by (induction t w rule: starts_with.induct) simp_all
  have "after_space ws s = Some rest \<Longrightarrow> length rest < length s"
  proof (induction ws)
    case Nil
    then show ?case by simp
  next
    case (Cons w ws)
    show ?case
    proof (cases "w \<noteq> [] \<and> starts_with s w")
      case True
      with Cons.prems have "rest = drop (length w) s" by simp
      moreover from True have "0 < length w" and "length w \<le> length s"
        by (simp_all add: sw)
      ultimately show ?thesis by (cases w) auto
    next
      case False
      with Cons show ?thesis by auto
    qed
  qed
  with a show "((ws, rest), (ws, s)) \<in> measure (\<lambda>(ws, s). length s)"
    by simp
qed

text \<open>\<^verbatim>\<open>str.strip()\<close>: the whitespace characters at both ends are removed.\<close>

definition strip :: "string \<Rightarrow> string" where
  "strip s = rev (lstrip_with (map rev whitespace) (rev (lstrip_with whitespace s)))"

text \<open>
  \<^verbatim>\<open>str.lower()\<close> on the letters A to Z; every other byte is left as it is.
\<close>

definition lower_char :: "char \<Rightarrow> char" where
  "lower_char c = (let n = (of_char c :: nat) in if 65 \<le> n \<and> n \<le> 90 then char_of (n + 32) else c)"

definition lower :: "string \<Rightarrow> string" where
  "lower s = map lower_char s"

section \<open>Poll-state detection\<close>

definition no_poll_xpath :: string where
  "no_poll_xpath = ''//*[contains(text(), '' @ [CHR 0x27] @ ''No current poll'' @ [CHR 0x27] @ '')]''"

definition answer_buttons_css :: string where
  "answer_buttons_css =
     ''button[class*='' @ [CHR 0x27] @ ''answer'' @ [CHR 0x27] @ ''], .answer-option, button[data-choice]''"

definition letters :: "string list" where
  "letters = [''A'', ''B'']"

text \<open>
  \<^verbatim>\<open>for button in ...: if button.text.strip() in ["A", "B"]: letter_buttons.append(button)\<close>
\<close>

fun letter_buttons_loop :: "element list \<Rightarrow> element list \<Rightarrow> element list res" where
  "letter_buttons_loop [] acc = ret acc"
| "letter_buttons_loop (button # rest) acc =
     andthen (read_text button) (\<lambda>t.
       letter_buttons_loop rest (if strip t \<in> set letters then acc @ [button] else acc))"

definition is_poll_active_body :: "driver \<Rightarrow> bool res" where
  "is_poll_active_body d =
     andthen (call_find_elements d XPATH no_poll_xpath) (\<lambda>no_poll_elements.
       if no_poll_elements \<noteq> [] then ret False
       else
         andthen (call_find_elements d CSS_SELECTOR answer_buttons_css) (\<lambda>answer_buttons.
         andthen (call_find_elements d TAG_NAME ''button'') (\<lambda>buttons.
         andthen (letter_buttons_loop buttons []) (\<lambda>letter_buttons.
           ret (length answer_buttons > 0 \<or> length letter_buttons > 0)))))"

definition is_poll_active :: "driver \<Rightarrow> bool res" where
  "is_poll_active d =
     try_except (is_poll_active_body d) any_Exception
       (\<lambda>e. andthen (log ERROR (ErrorCheckingPoll e)) (\<lambda>_. ret False))"

section \<open>Choice enumeration\<close>

definition choice_elements_css :: string where
  "choice_elements_css =
     ''button[data-choice], .answer-option, button[class*='' @ [CHR 0x27] @ ''answer'' @ [CHR 0x27] @ '']''"

type_synonym choice = "element \<times> string"

text \<open>
  The fallback loop:
  \<^verbatim>\<open>button_text = button.text.strip(); if button_text in ["A", "B"]: choices.append((button, button_text))\<close>
\<close>

fun button_choices_loop :: "element list \<Rightarrow> choice list \<Rightarrow> choice list res" where
  "button_choices_loop [] choices = ret choices"
| "button_choices_loop (button # rest) choices =
     andthen (read_text button) (\<lambda>t.
       let button_text = strip t in
       button_choices_loop rest
         (if button_text \<in> set letters then choices @ [(button, button_text)] else choices))"

text \<open>
  \<^verbatim>\<open>element.get_attribute("data-choice") or element.text.strip()\<close>: the text is read
  only when the attribute is \<^verbatim>\<open>None\<close> or the empty string.
\<close>

definition choice_id_of :: "element \<Rightarrow> string res" where
  "choice_id_of e =
     andthen (read_attribute e ''data-choice'') (\<lambda>a.
       case a of
         Some v \<Rightarrow> (if v \<noteq> [] then ret v else andthen (read_text e) (\<lambda>t. ret (strip t)))
       | None \<Rightarrow> andthen (read_text e) (\<lambda>t. ret (strip t)))"

fun selector_choices_loop :: "element list \<Rightarrow> choice list \<Rightarrow> choice list res" where
  "selector_choices_loop [] choices = ret choices"
| "selector_choices_loop (e # rest) choices =
     andthen (choice_id_of e) (\<lambda>choice_id.
       selector_choices_loop rest
         (if choice_id \<noteq> [] then choices @ [(e, choice_id)] else choices))"

definition get_answer_choices_body :: "driver \<Rightarrow> choice list res" where
  "get_answer_choices_body d =
     andthen (call_find_elements d CSS_SELECTOR choice_elements_css) (\<lambda>choice_elements.
     andthen
       (if choice_elements = [] then
          andthen (call_find_elements d TAG_NAME ''button'') (\<lambda>buttons.
            button_choices_loop buttons [])
        else selector_choices_loop choice_elements [])
       (\<lambda>choices.
     andthen (log INFO (FoundChoices (length choices))) (\<lambda>_.
       ret choices)))"

definition get_answer_choices :: "driver \<Rightarrow> choice list res" where
  "get_answer_choices d =
     try_except (get_answer_choices_body d) any_Exception
       (\<lambda>e. andthen (log ERROR (ErrorGettingChoices e)) (\<lambda>_. ret []))"

section \<open>Random selection and click\<close>

text \<open>
  \<^verbatim>\<open>random.choice(seq)\<close> returns \<^verbatim>\<open>seq[k]\<close> for an index \<open>0 \<le> k < len(seq)\<close>
  drawn by the generator. The draw is the parameter \<open>r\<close>, reduced to the range; every
  index is the outcome of some draw. The function is called on non-empty lists only.
\<close>

definition random_choice :: "nat \<Rightarrow> 'a list \<Rightarrow> 'a" where
  "random_choice r xs = xs ! (r mod length xs)"

definition select_random_answer :: "choice list \<Rightarrow> nat \<Rightarrow> unit res" where
  "select_random_answer choices r =
     (if choices = [] then log WARNING NoChoicesAvailable
      else
        (case random_choice r choices of (element, choice_id) \<Rightarrow>
           andthen (log INFO (RandomlySelected choice_id)) (\<lambda>_.
             try_except
               (andthen (do_click element) (\<lambda>_. log INFO (ClickedAnswer choice_id)))
               any_Exception
               (\<lambda>e. log ERROR (ErrorSelecting e)))))"

section \<open>Main loop\<close>

record config =
  url :: string
  check_interval :: nat
  username :: "string option"
  password :: "string option"

definition sleep :: "nat \<Rightarrow> unit res" where
  "sleep n = ([Sleep n], Inr ())"

text \<open>
  One iteration of \<^verbatim>\<open>while True\<close> in \<^verbatim>\<open>run\<close>, on the page snapshot \<open>d\<close> seen in
  this iteration and the draw \<open>r\<close> of the random generator. The flag
  \<^verbatim>\<open>poll_answered\<close> is the only state carried to the next iteration.
\<close>

definition loop_body :: "config \<Rightarrow> driver \<Rightarrow> nat \<Rightarrow> bool \<Rightarrow> bool res" where
  "loop_body cfg d r poll_answered =
     andthen (is_poll_active d) (\<lambda>active.
     andthen
       (if active then
          (if \<not> poll_answered then
             andthen (log INFO ActivePollDetected) (\<lambda>_.
             andthen (get_answer_choices d) (\<lambda>choices.
               if choices \<noteq> [] then
                 andthen (select_random_answer choices r) (\<lambda>_.
                 andthen (log INFO PollAnswered) (\<lambda>_.
                   ret True))
               else
                 andthen (log WARNING ActiveButNoChoices) (\<lambda>_.
                   ret poll_answered)))
           else ret poll_answered)
        else
          (if poll_answered then
             andthen (log INFO NoActivePoll) (\<lambda>_. ret False)
           else ret poll_answered))
       (\<lambda>poll_answered'.
     andthen (sleep (check_interval cfg)) (\<lambda>_.
       ret poll_answered')))"

text \<open>
  The loop never ends by itself; \<open>run_loop\<close> runs its first iterations, one for each
  observation (page snapshot and draw) of the list, from a given value of the flag.
\<close>

fun run_loop :: "config \<Rightarrow> (driver \<times> nat) list \<Rightarrow> bool \<Rightarrow> bool res" where
  "run_loop cfg [] poll_answered = ret poll_answered"
| "run_loop cfg ((d, r) # obs) poll_answered =
     andthen (loop_body cfg d r poll_answered) (\<lambda>poll_answered'.
       run_loop cfg obs poll_answered')"

section \<open>Login\<close>

text \<open>Python's truth value of an optional string: \<^verbatim>\<open>None\<close> and \<^verbatim>\<open>""\<close> are false.\<close>

definition truthy :: "string option \<Rightarrow> bool" where
  "truthy s = (case s of None \<Rightarrow> False | Some v \<Rightarrow> v \<noteq> [])"

definition is_username_input :: "string option \<Rightarrow> string \<Rightarrow> bool" where
  "is_username_input input_type placeholder =
     (input_type = Some ''text'' \<or> str_contains (lower placeholder) ''user''
        \<or> str_contains (lower placeholder) ''email'')"

definition is_password_input :: "string option \<Rightarrow> string \<Rightarrow> bool" where
  "is_password_input input_type placeholder =
     (input_type = Some ''password'' \<or> str_contains (lower placeholder) ''password'')"

text \<open>
  The scan of the input elements; the pair is \<^verbatim>\<open>(username_field, password_field)\<close>,
  each \<^verbatim>\<open>None\<close> at the start and overwritten by every later match.
\<close>

fun inputs_loop ::
  "element list \<Rightarrow> element option \<times> element option \<Rightarrow> (element option \<times> element option) res" where
  "inputs_loop [] found = ret found"
| "inputs_loop (e # rest) found =
     andthen (read_attribute e ''type'') (\<lambda>input_type.
     andthen (read_attribute e ''placeholder'') (\<lambda>p.
       let placeholder = (case p of Some v \<Rightarrow> (if v \<noteq> [] then v else []) | None \<Rightarrow> []) in
       inputs_loop rest
         (if is_username_input input_type placeholder then (Some e, snd found)
          else if is_password_input input_type placeholder then (fst found, Some e)
          else found)))"

definition is_login_text :: "string \<Rightarrow> bool" where
  "is_login_text button_text =
     (str_contains button_text ''login'' \<or> str_contains button_text ''sign in''
        \<or> str_contains button_text ''submit'')"

fun buttons_loop :: "element list \<Rightarrow> element option \<Rightarrow> element option res" where
  "buttons_loop [] login_button = ret login_button"
| "buttons_loop (button # rest) login_button =
     andthen (read_text button) (\<lambda>t.
       let button_text = lower t in
       buttons_loop rest (if is_login_text button_text then Some button else login_button))"

definition login_body :: "string \<Rightarrow> string \<Rightarrow> driver \<Rightarrow> bool res" where
  "login_body user pass d =
     andthen (log INFO AttemptingLogin) (\<lambda>_.
     andthen (call_find_elements d TAG_NAME ''input'') (\<lambda>login_elements.
     andthen (inputs_loop login_elements (None, None)) (\<lambda>found.
     andthen (call_find_elements d TAG_NAME ''button'') (\<lambda>buttons.
     andthen (buttons_loop buttons None) (\<lambda>login_button.
       case (fst found, snd found, login_button) of
         (Some username_field, Some password_field, Some button) \<Rightarrow>
           andthen (do_send_keys username_field user) (\<lambda>_.
           andthen (do_send_keys password_field pass) (\<lambda>_.
           andthen (do_click button) (\<lambda>_.
           andthen (log INFO LoginSuccessful) (\<lambda>_.
             ret True))))
       | _ \<Rightarrow> andthen (log WARNING NoLoginForm) (\<lambda>_. ret False))))))"

text \<open>\<^verbatim>\<open>except (TimeoutException, NoSuchElementException)\<close>\<close>

definition timeout_or_no_such_element :: "exn \<Rightarrow> bool" where
  "timeout_or_no_such_element e = (e = TimeoutException \<or> e = NoSuchElementException)"

definition str_of :: "string option \<Rightarrow> string" where
  "str_of s = (case s of None \<Rightarrow> [] | Some v \<Rightarrow> v)"

definition login :: "config \<Rightarrow> driver \<Rightarrow> bool res" where
  "login cfg d =
     (if \<not> (truthy (username cfg) \<and> truthy (password cfg)) then
        andthen (log INFO NoCredentials) (\<lambda>_. ret False)
      else
        try_except (login_body (str_of (username cfg)) (str_of (password cfg)) d)
          timeout_or_no_such_element
          (\<lambda>e. andthen (log ERROR (LoginFailed e)) (\<lambda>_. ret False)))"

section \<open>Notions used to state the properties\<close>

text \<open>The text of an element whose text can be read, and whether it can be read.\<close>

definition text_of :: "element \<Rightarrow> string" where
  "text_of b = (case elem_text b of Inr t \<Rightarrow> t | Inl _ \<Rightarrow> [])"

definition readable :: "element \<Rightarrow> bool" where
  "readable b = (case elem_text b of Inr _ \<Rightarrow> True | Inl _ \<Rightarrow> False)"

text \<open>
  The poll state observed on a page snapshot is what \<open>is_poll_active\<close> returns on it;
  choice enumeration is non-empty on it when \<open>get_answer_choices\<close> returns a non-empty
  list.
\<close>

definition poll_active :: "driver \<Rightarrow> bool" where
  "poll_active d = (snd (is_poll_active d) = Inr True)"

definition has_choices :: "driver \<Rightarrow> bool" where
  "has_choices d = (case snd (get_answer_choices d) of Inr cs \<Rightarrow> cs \<noteq> [] | Inl _ \<Rightarrow> False)"

text \<open>
  The number of observations that are active while the one before was not; \<open>prev\<close> is
  the state before the first observation.
\<close>

fun rising_edges :: "bool \<Rightarrow> bool list \<Rightarrow> nat" where
  "rising_edges prev [] = 0"
| "rising_edges prev (a # as) = (if a \<and> \<not> prev then 1 else 0) + rising_edges a as"

text \<open>
  The value of an attribute that can be read, and whether it can be read; the label
  \<open>get_answer_choices\<close> gives an element matched by the selector, and whether the reads
  that compute it succeed.
\<close>

definition attr_of :: "element \<Rightarrow> string \<Rightarrow> string option" where
  "attr_of e n = (case get_attribute e n of Inr v \<Rightarrow> v | Inl _ \<Rightarrow> None)"

definition attr_readable :: "element \<Rightarrow> string \<Rightarrow> bool" where
  "attr_readable e n = (case get_attribute e n of Inr _ \<Rightarrow> True | Inl _ \<Rightarrow> False)"

definition label_of :: "element \<Rightarrow> string" where
  "label_of e =
     (case attr_of e ''data-choice'' of
        Some v \<Rightarrow> (if v \<noteq> [] then v else strip (text_of e))
      | None \<Rightarrow> strip (text_of e))"

definition labelled :: "element \<Rightarrow> bool" where
  "labelled e =
     (attr_readable e ''data-choice'' \<and>
      (case attr_of e ''data-choice'' of
         Some v \<Rightarrow> (if v \<noteq> [] then True else readable e)
       | None \<Rightarrow> readable e))"

text \<open>
  The candidates of the login heuristics among inputs and buttons whose attributes and
  text can be read. An input is a candidate for the password field only when it is not
  one for the username field (\<^verbatim>\<open>elif\<close>).
\<close>

definition placeholder_of :: "element \<Rightarrow> string" where
  "placeholder_of e = (case attr_of e ''placeholder'' of Some v \<Rightarrow> v | None \<Rightarrow> [])"

definition is_username_candidate :: "element \<Rightarrow> bool" where
  "is_username_candidate e = is_username_input (attr_of e ''type'') (placeholder_of e)"

definition is_password_candidate :: "element \<Rightarrow> bool" where
  "is_password_candidate e =
     (\<not> is_username_candidate e \<and> is_password_input (attr_of e ''type'') (placeholder_of e))"

definition is_login_candidate :: "element \<Rightarrow> bool" where
  "is_login_candidate b = is_login_text (lower (text_of b))"

definition input_readable :: "element \<Rightarrow> bool" where
  "input_readable e = (attr_readable e ''type'' \<and> attr_readable e ''placeholder'')"

definition last_match :: "('a \<Rightarrow> bool) \<Rightarrow> 'a list \<Rightarrow> 'a option \<Rightarrow> 'a option" where
  "last_match P xs dflt = (case filter P xs of [] \<Rightarrow> dflt | y # ys \<Rightarrow> Some (last (y # ys)))"

subsection \<open>Example pages\<close>

text \<open>
  A page given by what its four kinds of query answer: the text search for
  "No current poll", the answer-choice selector (in either spelling), the buttons and
  the inputs.
\<close>

definition page ::
  "exn + element list \<Rightarrow> exn + element list \<Rightarrow> exn + element list \<Rightarrow> exn + element list \<Rightarrow> driver" where
  "page no_poll answers buttons inputs =
     \<lparr>find_elements = (\<lambda>b q.
        if b = XPATH \<and> q = no_poll_xpath then no_poll
        else if b = CSS_SELECTOR \<and> (q = answer_buttons_css \<or> q = choice_elements_css) then answers
        else if b = TAG_NAME \<and> q = ''button'' then buttons
        else if b = TAG_NAME \<and> q = ''input'' then inputs
        else Inr [])\<rparr>"

definition elem :: "nat \<Rightarrow> string \<Rightarrow> (string \<times> string) list \<Rightarrow> element" where
  "elem i t attrs =
     \<lparr>ident = i, elem_text = Inr t, get_attribute = (\<lambda>n. Inr (map_of attrs n)),
      click = Inr (), send_keys = (\<lambda>s. Inr ())\<rparr>"

definition banner :: element where
  "banner = elem 0 ''No current poll'' []"

definition button_A :: element where
  "button_A = elem 1 '' A '' []"

definition button_B :: element where
  "button_B = elem 2 ''B'' []"

definition button_next :: element where
  "button_next = elem 3 ''Next'' []"

definition option_yes :: element where
  "option_yes = elem 4 ''Yes'' [(''class'', ''answer-option''), (''data-choice'', ''yes'')]"

text \<open>An element handle that went stale: every operation on it raises.\<close>

definition stale_button :: element where
  "stale_button =
     \<lparr>ident = 5, elem_text = Inl StaleElementReferenceException,
      get_attribute = (\<lambda>n. Inl StaleElementReferenceException),
      click = Inl StaleElementReferenceException,
      send_keys = (\<lambda>s. Inl StaleElementReferenceException)\<rparr>"

text \<open>A button labelled "A" that cannot be clicked: the click raises.\<close>

definition blocked_A :: element where
  "blocked_A = (elem 6 ''A'' [])\<lparr>click := Inl ElementNotInteractableException\<rparr>"

definition cfg5 :: config where
  "cfg5 = \<lparr>url = ''http://poll'', check_interval = 5, username = None, password = None\<rparr>"

text \<open>
  A page with no poll, a page with a poll answered by the buttons "A" and "B", and a page
  with a poll whose only button cannot be clicked.
\<close>

definition page_off :: driver where
  "page_off = page (Inr [banner]) (Inr []) (Inr [button_next]) (Inr [])"

definition page_on :: driver where
  "page_on = page (Inr []) (Inr []) (Inr [button_A, button_B]) (Inr [])"

definition page_blocked :: driver where
  "page_blocked = page (Inr []) (Inr []) (Inr [blocked_A]) (Inr [])"

text \<open>
  Texts padded with whitespace outside ASCII: a button "A" followed by a no-break space
  (U+00A0), an answer option "B" between a no-break space and an em space (U+2003), and
  an answer option whose text is one ideographic space (U+3000).
\<close>

definition button_A_nbsp :: element where
  "button_A_nbsp = elem 14 [CHR ''A'', CHR 0xC2, CHR 0xA0] []"

definition option_padded :: element where
  "option_padded =
     elem 15 [CHR 0xC2, CHR 0xA0, CHR ''B'', CHR 0xE2, CHR 0x80, CHR 0x83]
       [(''class'', ''answer-option'')]"

definition option_wide_blank :: element where
  "option_wide_blank = elem 16 [CHR 0xE3, CHR 0x80, CHR 0x80] [(''class'', ''answer-option'')]"

definition page_nbsp :: driver where
  "page_nbsp = page (Inr []) (Inr []) (Inr [button_A_nbsp]) (Inr [])"

text \<open>
  Answer options without a usable \<^verbatim>\<open>data-choice\<close> attribute, a button labelled "C",
  and pages for choice enumeration: one with answer options, one with letter buttons
  only, one whose selector query times out.
\<close>

definition option_blank :: element where
  "option_blank = elem 7 ''  '' [(''class'', ''answer-option'')]"

definition option_B :: element where
  "option_B = elem 8 '' B'' [(''class'', ''answer-option''), (''data-choice'', '''')]"

definition button_C :: element where
  "button_C = elem 9 ''C'' []"

definition page_options :: driver where
  "page_options =
     page (Inr []) (Inr [option_yes, option_blank, option_B, option_padded, option_wide_blank])
       (Inr [button_A]) (Inr [])"

definition page_letters :: driver where
  "page_letters =
     page (Inr []) (Inr []) (Inr [button_next, button_A, button_B, button_C, button_A_nbsp]) (Inr [])"

definition page_timeout :: driver where
  "page_timeout = page (Inr []) (Inl TimeoutException) (Inr [button_A]) (Inr [])"

text \<open>
  A login form with two text inputs, a password input and a login button, and the same
  form without the button.
\<close>

definition input_name :: element where
  "input_name = elem 10 [] [(''type'', ''text''), (''placeholder'', ''Full name'')]"

definition input_user :: element where
  "input_user = elem 11 [] [(''type'', ''email''), (''placeholder'', ''Your Email'')]"

definition input_pass :: element where
  "input_pass = elem 12 [] [(''type'', ''password'')]"

definition button_login :: element where
  "button_login = elem 13 ''Sign In'' []"

definition cfg_ann :: config where
  "cfg_ann = \<lparr>url = ''http://poll'', check_interval = 5, username = Some ''ann'',
     password = Some ''secret''\<rparr>"

definition page_two_users :: driver where
  "page_two_users =
     page (Inr []) (Inr []) (Inr [button_next, button_login]) (Inr [input_name, input_user, input_pass])"

definition page_no_button :: driver where
  "page_no_button =
     page (Inr []) (Inr []) (Inr [button_next]) (Inr [input_name, input_user, input_pass])"



section \<open>Basic facts about computations\<close>

lemma andthen_Inr [simp]: "andthen (tr, Inr x) f = (tr @ fst (f x), snd (f x))"
  by (simp add: andthen_def split: prod.splits)

lemma andthen_Inl [simp]: "andthen (tr, Inl e) f = (tr, Inl e)"
  by (simp add: andthen_def)

lemma fst_andthen:
  "fst (andthen m f) = fst m @ (case snd m of Inl e \<Rightarrow> [] | Inr x \<Rightarrow> fst (f x))"
  by (cases m) (auto split: sum.splits)

lemma snd_andthen:
  "snd (andthen m f) = (case snd m of Inl e \<Rightarrow> Inl e | Inr x \<Rightarrow> snd (f x))"
  by (cases m) (auto split: sum.splits)

lemma try_except_Inr [simp]: "try_except (tr, Inr x) c h = (tr, Inr x)"
  by (simp add: try_except_def)

lemma try_except_Inl [simp]:
  "try_except (tr, Inl e) c h = (if c e then (tr @ fst (h e), snd (h e)) else (tr, Inl e))"
  by (simp add: try_except_def split: prod.splits)

lemma clicks_append [simp]: "clicks (tr @ tr') = clicks tr @ clicks tr'"
  by (induction tr rule: clicks.induct) simp_all

text \<open>
  After \<open>lstrip_with\<close> no character of \<open>ws\<close> is left at the front; \<open>strip\<close> on the
  texts of the example pages.
\<close>

lemma after_space_lstrip_with: "after_space ws (lstrip_with ws s) = None"
  by (induction ws s rule: lstrip_with.induct) (simp split: option.splits)

lemma strip_examples:
  "strip '' A '' = ''A''"
  "strip ''A'' = ''A''"
  "strip ''B'' = ''B''"
  "strip '' B'' = ''B''"
  "strip ''C'' = ''C''"
  "strip ''Next'' = ''Next''"
  "strip ''Yes'' = ''Yes''"
  "strip ''  '' = []"
  "strip [CHR ''A'', CHR 0xC2, CHR 0xA0] = ''A''"
  "strip [CHR 0xC2, CHR 0xA0, CHR ''B'', CHR 0xE2, CHR 0x80, CHR 0x83] = ''B''"
  "strip [CHR 0xE3, CHR 0x80, CHR 0x80] = []"
  by (simp_all add: strip_def whitespace_def)

lemmas prim_defs = ret_def call_find_elements_def read_text_def read_attribute_def
  do_click_def do_send_keys_def log_def sleep_def

lemmas example_defs = page_def elem_def banner_def button_A_def button_B_def
  button_next_def option_yes_def button_A_nbsp_def readable_def text_of_def strip_examples Let_def

section \<open>Properties of poll-state detection\<close>

lemma letter_buttons_loop_readable:
  "\<forall>b \<in> set bs. readable b \<Longrightarrow>
   letter_buttons_loop bs acc =
     (map GetText bs, Inr (acc @ filter (\<lambda>b. strip (text_of b) \<in> set letters) bs))"
  by (induction bs arbitrary: acc)
     (auto simp: prim_defs readable_def text_of_def split: sum.splits)

text \<open>
  C2. When the search for an element whose text contains "No current poll" finds at
  least one element, \<open>is_poll_active\<close> returns false, whatever else the page holds, and
  that search is the only query it makes.
\<close>

theorem is_poll_active_no_current_poll:
  assumes "find_elements d XPATH no_poll_xpath = Inr (e # es)"
  shows "is_poll_active d = ([FindElements XPATH no_poll_xpath], Inr False)"
  using assms by (simp add: is_poll_active_def is_poll_active_body_def prim_defs)

theorem is_poll_active_no_current_poll_witness:
  "find_elements (page (Inr [banner]) (Inr [option_yes]) (Inr [button_A, button_B]) (Inr []))
     XPATH no_poll_xpath = Inr [banner]
   \<and> is_poll_active (page (Inr [banner]) (Inr [option_yes]) (Inr [button_A, button_B]) (Inr []))
     = ([FindElements XPATH no_poll_xpath], Inr False)"
  using is_poll_active_no_current_poll
    [of "page (Inr [banner]) (Inr [option_yes]) (Inr [button_A, button_B]) (Inr [])" banner "[]"]
  by (simp add: page_def)

text \<open>
  C3. On a page whose queries answer without raising, where the search for
  "No current poll" finds nothing and either the answer-choice selector matches an element
  or some button has the trimmed text "A" or "B", \<open>is_poll_active\<close> returns true.
\<close>

theorem is_poll_active_answer_elements:
  assumes "find_elements d XPATH no_poll_xpath = Inr []"
    and "find_elements d CSS_SELECTOR answer_buttons_css = Inr cs"
    and "find_elements d TAG_NAME ''button'' = Inr bs"
    and "\<forall>b \<in> set bs. readable b"
    and "cs \<noteq> [] \<or> (\<exists>b \<in> set bs. strip (text_of b) = ''A'' \<or> strip (text_of b) = ''B'')"
  shows "snd (is_poll_active d) = Inr True"
  using assms
  by (auto simp add: is_poll_active_def is_poll_active_body_def prim_defs
        letter_buttons_loop_readable letters_def filter_empty_conv)

theorem is_poll_active_answer_elements_witness:
  "find_elements (page (Inr []) (Inr []) (Inr [button_next, button_A]) (Inr []))
     XPATH no_poll_xpath = Inr []
   \<and> find_elements (page (Inr []) (Inr []) (Inr [button_next, button_A]) (Inr []))
     CSS_SELECTOR answer_buttons_css = Inr []
   \<and> find_elements (page (Inr []) (Inr []) (Inr [button_next, button_A]) (Inr []))
     TAG_NAME ''button'' = Inr [button_next, button_A]
   \<and> readable button_next \<and> readable button_A
   \<and> strip (text_of button_A) = ''A''
   \<and> snd (is_poll_active (page (Inr []) (Inr []) (Inr [button_next, button_A]) (Inr []))) = Inr True
   \<and> find_elements page_nbsp XPATH no_poll_xpath = Inr []
   \<and> find_elements page_nbsp CSS_SELECTOR answer_buttons_css = Inr []
   \<and> find_elements page_nbsp TAG_NAME ''button'' = Inr [button_A_nbsp]
   \<and> readable button_A_nbsp
   \<and> strip (text_of button_A_nbsp) = ''A''
   \<and> snd (is_poll_active page_nbsp) = Inr True"
proof -
  let ?d = "page (Inr []) (Inr []) (Inr [button_next, button_A]) (Inr [])"
  have q1: "find_elements ?d XPATH no_poll_xpath = Inr []"
    by (simp add: page_def)
  have q2: "find_elements ?d CSS_SELECTOR answer_buttons_css = Inr []"
    by (simp add: page_def)
  have q3: "find_elements ?d TAG_NAME ''button'' = Inr [button_next, button_A]"
    by (simp add: page_def)
  have q4: "\<forall>b \<in> set [button_next, button_A]. readable b"
    by (simp add: example_defs)
  have q5: "strip (text_of button_A) = ''A''"
    by (simp add: example_defs)
  from q5 have q6: "[] \<noteq> ([]::element list) \<or>
      (\<exists>b \<in> set [button_next, button_A]. strip (text_of b) = ''A'' \<or> strip (text_of b) = ''B'')"
    by simp
  from q4 have q7: "readable button_next \<and> readable button_A"
    by simp
  have n1: "find_elements page_nbsp XPATH no_poll_xpath = Inr []"
    by (simp add: page_nbsp_def page_def)
  have n2: "find_elements page_nbsp CSS_SELECTOR answer_buttons_css = Inr []"
    by (simp add: page_nbsp_def page_def)
  have n3: "find_elements page_nbsp TAG_NAME ''button'' = Inr [button_A_nbsp]"
    by (simp add: page_nbsp_def page_def)
  have n4: "readable button_A_nbsp"
    by (simp add: example_defs)
  then have n4': "\<forall>b \<in> set [button_A_nbsp]. readable b" by simp
  have n5: "strip (text_of button_A_nbsp) = ''A''"
    by (simp add: example_defs)
  then have n6: "[] \<noteq> ([]::element list) \<or>
      (\<exists>b \<in> set [button_A_nbsp]. strip (text_of b) = ''A'' \<or> strip (text_of b) = ''B'')"
    by simp
  show ?thesis
    using is_poll_active_answer_elements [OF q1 q2 q3 q4 q6]
      is_poll_active_answer_elements [OF n1 n2 n3 n4' n6]
      q1 q2 q3 q7 q5 n1 n2 n3 n4 n5
    by blast
qed

text \<open>
  The result of \<open>is_poll_active\<close> from that of its \<^verbatim>\<open>try\<close> block, and the four places
  where the block can raise: the three queries and the reading of a button's text.
\<close>

lemma is_poll_active_of_body:
  "is_poll_active d =
     (case is_poll_active_body d of
        (tr, Inl e) \<Rightarrow> (tr @ [Log ERROR (ErrorCheckingPoll e)], Inr False)
      | (tr, Inr b) \<Rightarrow> (tr, Inr b))"
  by (cases "is_poll_active_body d")
     (auto simp add: is_poll_active_def any_Exception_def prim_defs split: sum.splits)

lemma letter_buttons_loop_raises:
  "b \<in> set bs \<Longrightarrow> elem_text b = Inl e \<Longrightarrow> \<exists>e'. snd (letter_buttons_loop bs acc) = Inl e'"
proof (induction bs arbitrary: acc)
  case Nil
  then show ?case by simp
next
  case (Cons a bs)
  show ?case
  proof (cases "elem_text a")
    case (Inl x)
    then show ?thesis by (simp add: prim_defs)
  next
    case (Inr t)
    with Cons.prems have "b \<in> set bs" by auto
    from Cons.IH [OF this Cons.prems(2)] Inr show ?thesis
      by (simp add: prim_defs)
  qed
qed

lemma is_poll_active_text_search_raises:
  "find_elements d XPATH no_poll_xpath = Inl e \<Longrightarrow> snd (is_poll_active d) = Inr False"
  by (simp add: is_poll_active_of_body is_poll_active_body_def prim_defs)

lemma is_poll_active_selector_raises:
  "find_elements d XPATH no_poll_xpath = Inr [] \<Longrightarrow>
   find_elements d CSS_SELECTOR answer_buttons_css = Inl e \<Longrightarrow>
   snd (is_poll_active d) = Inr False"
  by (simp add: is_poll_active_of_body is_poll_active_body_def prim_defs)

lemma is_poll_active_buttons_raises:
  "find_elements d XPATH no_poll_xpath = Inr [] \<Longrightarrow>
   find_elements d CSS_SELECTOR answer_buttons_css = Inr cs \<Longrightarrow>
   find_elements d TAG_NAME ''button'' = Inl e \<Longrightarrow>
   snd (is_poll_active d) = Inr False"
  by (simp add: is_poll_active_of_body is_poll_active_body_def prim_defs)

lemma is_poll_active_text_raises:
  assumes "find_elements d XPATH no_poll_xpath = Inr []"
    and "find_elements d CSS_SELECTOR answer_buttons_css = Inr cs"
    and "find_elements d TAG_NAME ''button'' = Inr bs"
    and "b \<in> set bs" and "elem_text b = Inl e"
  shows "snd (is_poll_active d) = Inr False"
proof -
  from letter_buttons_loop_raises [OF assms(4,5)]
  obtain e' where "snd (letter_buttons_loop bs []) = Inl e'" by blast
  then obtain tr where "letter_buttons_loop bs [] = (tr, Inl e')"
    by (cases "letter_buttons_loop bs []") simp
  with assms(1-3) show ?thesis
    by (simp add: is_poll_active_of_body is_poll_active_body_def prim_defs)
qed

text \<open>
  C4. \<open>is_poll_active\<close> always returns a value, never an exception; when its
  \<^verbatim>\<open>try\<close> block (all of its inspection of the page) raises, it logs the error and
  returns false.
\<close>

theorem is_poll_active_never_raises:
  "(\<exists>tr b. is_poll_active d = (tr, Inr b)) \<and>
   (\<forall>tr e. is_poll_active_body d = (tr, Inl e) \<longrightarrow>
      is_poll_active d = (tr @ [Log ERROR (ErrorCheckingPoll e)], Inr False))"
proof (cases "is_poll_active_body d")
  case (Pair tr r)
  then show ?thesis
    by (cases r) (auto simp add: is_poll_active_def any_Exception_def prim_defs)
qed

theorem is_poll_active_never_raises_witness:
  "is_poll_active_body (page (Inr []) (Inl TimeoutException) (Inr []) (Inr [])) =
     ([FindElements XPATH no_poll_xpath, FindElements CSS_SELECTOR answer_buttons_css],
      Inl TimeoutException)
   \<and> is_poll_active (page (Inr []) (Inl TimeoutException) (Inr []) (Inr [])) =
     ([FindElements XPATH no_poll_xpath, FindElements CSS_SELECTOR answer_buttons_css,
       Log ERROR (ErrorCheckingPoll TimeoutException)], Inr False)"
proof -
  let ?d = "page (Inr []) (Inl TimeoutException) (Inr []) (Inr [])"
  have b: "is_poll_active_body ?d =
     ([FindElements XPATH no_poll_xpath, FindElements CSS_SELECTOR answer_buttons_css],
      Inl TimeoutException)"
    by (simp add: is_poll_active_body_def prim_defs page_def)
  from is_poll_active_never_raises [of ?d] b show ?thesis
    by simp
qed

section \<open>Properties of random selection\<close>

lemma random_choice_mem: "xs \<noteq> [] \<Longrightarrow> random_choice r xs \<in> set xs"
  by (simp add: random_choice_def)

lemma select_random_answer_nonempty:
  "choices \<noteq> [] \<Longrightarrow>
   select_random_answer choices r =
     (let c = random_choice r choices in
      [Log INFO (RandomlySelected (snd c)), Click (fst c)]
        @ [case click (fst c) of Inl e \<Rightarrow> Log ERROR (ErrorSelecting e)
           | Inr _ \<Rightarrow> Log INFO (ClickedAnswer (snd c))],
      Inr ())"
  by (auto simp: select_random_answer_def prim_defs any_Exception_def Let_def
      split: prod.splits sum.splits)

text \<open>
  C5. On a non-empty list of choices \<open>select_random_answer\<close> attempts exactly one click,
  and it is on the element of one of the choices of the list.
\<close>

theorem select_random_answer_clicks_once:
  assumes "choices \<noteq> []"
  shows "\<exists>c \<in> set choices. clicks (fst (select_random_answer choices r)) = [fst c]"
proof -
  from assms have "random_choice r choices \<in> set choices"
    by (rule random_choice_mem)
  moreover have "clicks (fst (select_random_answer choices r)) = [fst (random_choice r choices)]"
    using assms by (simp add: select_random_answer_nonempty Let_def split: sum.splits)
  ultimately show ?thesis by blast
qed

theorem select_random_answer_clicks_once_witness:
  "[(button_A, ''A''), (button_B, ''B'')] \<noteq> []
   \<and> (\<exists>c \<in> set [(button_A, ''A''), (button_B, ''B'')].
        clicks (fst (select_random_answer [(button_A, ''A''), (button_B, ''B'')] 3)) = [fst c])
   \<and> clicks (fst (select_random_answer [(button_A, ''A''), (button_B, ''B'')] 3)) = [button_B]"
proof -
  have n: "[(button_A, ''A''), (button_B, ''B'')] \<noteq> []" by simp
  have c: "clicks (fst (select_random_answer [(button_A, ''A''), (button_B, ''B'')] 3)) = [button_B]"
    by (simp add: select_random_answer_nonempty random_choice_def example_defs
          numeral_3_eq_3 mod_Suc)
  from select_random_answer_clicks_once [OF n, of 3] n c show ?thesis by blast
qed

text \<open>
  C6. \<open>select_random_answer\<close> always returns normally. On the empty list it attempts no
  click; when the click on the chosen element raises, the exception is caught and logged.
\<close>

theorem select_random_answer_never_raises:
  "snd (select_random_answer choices r) = Inr ()
   \<and> clicks (fst (select_random_answer [] r)) = []
   \<and> (\<forall>e. choices \<noteq> [] \<and> click (fst (random_choice r choices)) = Inl e \<longrightarrow>
        select_random_answer choices r =
          ([Log INFO (RandomlySelected (snd (random_choice r choices))),
            Click (fst (random_choice r choices)),
            Log ERROR (ErrorSelecting e)], Inr ()))"
proof (cases "choices = []")
  case True
  then show ?thesis by (simp add: select_random_answer_def prim_defs)
next
  case False
  then show ?thesis
    by (simp add: select_random_answer_nonempty Let_def)
       (simp add: select_random_answer_def prim_defs)
qed

theorem select_random_answer_never_raises_witness:
  "[(stale_button, ''A'')] \<noteq> []
   \<and> click (fst (random_choice 0 [(stale_button, ''A'')])) = Inl StaleElementReferenceException
   \<and> select_random_answer [(stale_button, ''A'')] 0 =
       ([Log INFO (RandomlySelected ''A''), Click stale_button,
         Log ERROR (ErrorSelecting StaleElementReferenceException)], Inr ())
   \<and> select_random_answer [] 0 = ([Log WARNING NoChoicesAvailable], Inr ())"
proof -
  have c: "click (fst (random_choice 0 [(stale_button, ''A'')])) = Inl StaleElementReferenceException"
    by (simp add: random_choice_def stale_button_def)
  have r: "random_choice 0 [(stale_button, ''A'')] = (stale_button, ''A'')"
    by (simp add: random_choice_def)
  have e: "select_random_answer [] 0 = ([Log WARNING NoChoicesAvailable], Inr ())"
    by (simp add: select_random_answer_def prim_defs)
  from select_random_answer_never_raises [of "[(stale_button, ''A'')]" 0] c r e
  show ?thesis by simp
qed

section \<open>Properties of login\<close>

text \<open>
  C8. When the username or the password is absent, \<open>login\<close> logs that it skips the
  login and returns at once: it makes no call on the driver.
\<close>

theorem login_skipped_without_credentials:
  assumes "username cfg = None \<or> password cfg = None"
  shows "login cfg d = ([Log INFO NoCredentials], Inr False)
         \<and> driver_calls (fst (login cfg d)) = []"
  using assms by (auto simp: login_def truthy_def prim_defs driver_calls_def)

theorem login_skipped_without_credentials_witness:
  "password \<lparr>url = ''http://poll'', check_interval = 5, username = Some ''ann'', password = None\<rparr> = None
   \<and> login \<lparr>url = ''http://poll'', check_interval = 5, username = Some ''ann'', password = None\<rparr>
        (page (Inr []) (Inr []) (Inr []) (Inr [stale_button]))
      = ([Log INFO NoCredentials], Inr False)
   \<and> driver_calls (fst (login
        \<lparr>url = ''http://poll'', check_interval = 5, username = Some ''ann'', password = None\<rparr>
        (page (Inr []) (Inr []) (Inr []) (Inr [stale_button])))) = []"
  using login_skipped_without_credentials
    [of "\<lparr>url = ''http://poll'', check_interval = 5, username = Some ''ann'', password = None\<rparr>"
        "page (Inr []) (Inr []) (Inr []) (Inr [stale_button])"]
  by (simp add: driver_calls_def)

section \<open>Properties of the main loop\<close>

lemma clicks_andthen:
  "clicks (fst (andthen m f)) =
     clicks (fst m) @ (case snd m of Inl e \<Rightarrow> [] | Inr x \<Rightarrow> clicks (fst (f x)))"
  by (cases m) (auto split: sum.splits)

lemma clicks_try_except:
  "clicks (fst (try_except m c h)) =
     clicks (fst m) @
       (case snd m of Inl e \<Rightarrow> (if c e then clicks (fst (h e)) else []) | Inr x \<Rightarrow> [])"
  by (cases m) (auto split: sum.splits)

lemma clicks_letter_buttons_loop: "clicks (fst (letter_buttons_loop bs acc)) = []"
  by (induction bs arbitrary: acc) (auto simp: clicks_andthen prim_defs split: sum.splits)

lemma clicks_is_poll_active: "clicks (fst (is_poll_active d)) = []"
  by (auto simp: is_poll_active_def is_poll_active_body_def clicks_andthen clicks_try_except
      clicks_letter_buttons_loop prim_defs split: sum.splits)

lemma clicks_button_choices_loop: "clicks (fst (button_choices_loop bs acc)) = []"
  by (induction bs arbitrary: acc)
     (auto simp: clicks_andthen prim_defs Let_def split: sum.splits)

lemma clicks_choice_id_of: "clicks (fst (choice_id_of e)) = []"
  by (auto simp: choice_id_of_def clicks_andthen prim_defs split: sum.splits option.splits)

lemma clicks_selector_choices_loop: "clicks (fst (selector_choices_loop es acc)) = []"
  by (induction es arbitrary: acc)
     (auto simp: clicks_andthen clicks_choice_id_of prim_defs split: sum.splits)

lemma clicks_get_answer_choices: "clicks (fst (get_answer_choices d)) = []"
  by (auto simp: get_answer_choices_def get_answer_choices_body_def clicks_andthen
      clicks_try_except clicks_button_choices_loop clicks_selector_choices_loop prim_defs
      split: sum.splits)

lemma get_answer_choices_of_body:
  "get_answer_choices d =
     (case get_answer_choices_body d of
        (tr, Inl e) \<Rightarrow> (tr @ [Log ERROR (ErrorGettingChoices e)], Inr [])
      | (tr, Inr cs) \<Rightarrow> (tr, Inr cs))"
  by (cases "get_answer_choices_body d")
     (auto simp add: get_answer_choices_def any_Exception_def prim_defs split: sum.splits)

lemma is_poll_active_returns: "\<exists>tr. is_poll_active d = (tr, Inr (poll_active d))"
  by (cases "is_poll_active_body d")
     (auto simp: poll_active_def is_poll_active_of_body split: sum.splits)

lemma get_answer_choices_returns: "\<exists>tr cs. get_answer_choices d = (tr, Inr cs)"
  by (cases "get_answer_choices_body d")
     (auto simp: get_answer_choices_of_body split: sum.splits)

lemma loop_body_step:
  assumes "poll_active d \<longrightarrow> has_choices d"
  shows "snd (loop_body cfg d r pa) = Inr (poll_active d)"
    and "length (clicks (fst (loop_body cfg d r pa))) = (if poll_active d \<and> \<not> pa then 1 else 0)"
proof -
  obtain tr1 where a: "is_poll_active d = (tr1, Inr (poll_active d))"
    using is_poll_active_returns by blast
  obtain tr2 cs where c: "get_answer_choices d = (tr2, Inr cs)"
    using get_answer_choices_returns by blast
  from a have k1: "clicks tr1 = []"
    using clicks_is_poll_active [of d] by simp
  from c have k2: "clicks tr2 = []"
    using clicks_get_answer_choices [of d] by simp
  from assms c have n: "poll_active d \<Longrightarrow> cs \<noteq> []"
    by (simp add: has_choices_def)
  show "snd (loop_body cfg d r pa) = Inr (poll_active d)"
    using a c n
    by (auto simp: loop_body_def prim_defs select_random_answer_nonempty Let_def)
  show "length (clicks (fst (loop_body cfg d r pa))) = (if poll_active d \<and> \<not> pa then 1 else 0)"
    using a c n k1 k2
    by (auto simp: loop_body_def prim_defs select_random_answer_nonempty Let_def
        split: sum.splits)
qed

lemma run_loop_flag:
  "\<forall>(d, r) \<in> set obs. poll_active d \<longrightarrow> has_choices d \<Longrightarrow>
   snd (run_loop cfg obs pa) = Inr (if obs = [] then pa else poll_active (fst (last obs)))"
proof (induction obs arbitrary: pa)
  case Nil
  then show ?case by (simp add: ret_def)
next
  case (Cons o1 obs)
  obtain d r where o1: "o1 = (d, r)" by (cases o1)
  with Cons.prems have h: "poll_active d \<longrightarrow> has_choices d" by simp
  obtain tr where st: "loop_body cfg d r pa = (tr, Inr (poll_active d))"
    using loop_body_step(1) [OF h, of cfg r pa] by (cases "loop_body cfg d r pa") simp
  from Cons.prems have "\<forall>(d, r) \<in> set obs. poll_active d \<longrightarrow> has_choices d" by simp
  from Cons.IH [OF this, of "poll_active d"] o1 st show ?case by simp
qed

lemma run_loop_clicks:
  "\<forall>(d, r) \<in> set obs. poll_active d \<longrightarrow> has_choices d \<Longrightarrow>
   length (clicks (fst (run_loop cfg obs pa))) = rising_edges pa (map (poll_active \<circ> fst) obs)"
proof (induction obs arbitrary: pa)
  case Nil
  then show ?case by (simp add: ret_def)
next
  case (Cons o1 obs)
  obtain d r where o1: "o1 = (d, r)" by (cases o1)
  with Cons.prems have h: "poll_active d \<longrightarrow> has_choices d" by simp
  obtain tr where st: "loop_body cfg d r pa = (tr, Inr (poll_active d))"
    using loop_body_step(1) [OF h, of cfg r pa] by (cases "loop_body cfg d r pa") simp
  with loop_body_step(2) [OF h, of cfg r pa]
  have k: "length (clicks tr) = (if poll_active d \<and> \<not> pa then 1 else 0)" by simp
  from Cons.prems have "\<forall>(d, r) \<in> set obs. poll_active d \<longrightarrow> has_choices d" by simp
  from Cons.IH [OF this, of "poll_active d"] o1 st k show ?case by simp
qed

text \<open>
  C1. The loop run from the flag false over a sequence of observations on each of which
  choice enumeration is non-empty when the poll is active. After every iteration the
  flag equals the poll state just observed: it is set in the iteration that answers an
  active poll, stays set while the poll stays active, and is reset in the iteration that
  first observes the poll inactive. So after a non-empty run the flag is the state of the
  last observation, and the click attempts are as many as the observations that are
  active with the one before inactive: two for (inactive, active, active, inactive,
  active).
\<close>

theorem run_loop_answered_flag:
  assumes "\<forall>(d, r) \<in> set obs. poll_active d \<longrightarrow> has_choices d"
  shows "(\<forall>d r pa. (d, r) \<in> set obs \<longrightarrow> snd (loop_body cfg d r pa) = Inr (poll_active d))
    \<and> (obs \<noteq> [] \<longrightarrow> snd (run_loop cfg obs False) = Inr (poll_active (fst (last obs))))
    \<and> length (clicks (fst (run_loop cfg obs False)))
        = rising_edges False (map (poll_active \<circ> fst) obs)
    \<and> (map (poll_active \<circ> fst) obs = [False, True, True, False, True] \<longrightarrow>
         length (clicks (fst (run_loop cfg obs False))) = 2)"
proof -
  have step: "\<forall>d r pa. (d, r) \<in> set obs \<longrightarrow> snd (loop_body cfg d r pa) = Inr (poll_active d)"
    using assms loop_body_step(1) by blast
  have flag: "obs \<noteq> [] \<longrightarrow> snd (run_loop cfg obs False) = Inr (poll_active (fst (last obs)))"
    using run_loop_flag [OF assms, of cfg False] by simp
  have count: "length (clicks (fst (run_loop cfg obs False)))
        = rising_edges False (map (poll_active \<circ> fst) obs)"
    using assms by (rule run_loop_clicks)
  have five: "map (poll_active \<circ> fst) obs = [False, True, True, False, True] \<longrightarrow>
         length (clicks (fst (run_loop cfg obs False))) = 2"
    using count by simp
  from step flag count five show ?thesis by blast
qed

lemma poll_active_page_off: "poll_active page_off = False"
  by (simp add: poll_active_def page_off_def is_poll_active_of_body is_poll_active_body_def
      prim_defs example_defs)

lemma poll_active_page_on: "poll_active page_on"
  by (simp add: poll_active_def page_on_def is_poll_active_of_body is_poll_active_body_def
      prim_defs letters_def example_defs)

lemma has_choices_page_on: "has_choices page_on"
  by (simp add: has_choices_def page_on_def get_answer_choices_of_body
      get_answer_choices_body_def prim_defs letters_def example_defs)

theorem run_loop_answered_flag_witness:
  "poll_active page_off = False \<and> poll_active page_on \<and> has_choices page_on
   \<and> map (poll_active \<circ> fst)
        [(page_off, 0), (page_on, 0), (page_on, 1), (page_off, 0), (page_on, 1)]
       = [False, True, True, False, True]
   \<and> length (clicks (fst (run_loop cfg5
        [(page_off, 0), (page_on, 0), (page_on, 1), (page_off, 0), (page_on, 1)] False))) = 2
   \<and> snd (run_loop cfg5
        [(page_off, 0), (page_on, 0), (page_on, 1), (page_off, 0), (page_on, 1)] False) = Inr True"
proof -
  let ?obs = "[(page_off, 0::nat), (page_on, 0), (page_on, 1), (page_off, 0), (page_on, 1)]"
  have h: "\<forall>(d, r) \<in> set ?obs. poll_active d \<longrightarrow> has_choices d"
    by (simp add: has_choices_page_on poll_active_page_off)
  have m: "map (poll_active \<circ> fst) ?obs = [False, True, True, False, True]"
    by (simp add: poll_active_page_off poll_active_page_on)
  from run_loop_answered_flag [OF h, of cfg5] m
  show ?thesis
    by (simp add: poll_active_page_off poll_active_page_on has_choices_page_on)
qed

lemma loop_body_answered_active:
  assumes "poll_active d"
  shows "snd (loop_body cfg d r True) = Inr True" and "clicks (fst (loop_body cfg d r True)) = []"
proof -
  obtain tr1 where a: "is_poll_active d = (tr1, Inr True)"
    using is_poll_active_returns [of d] assms by auto
  from a have k1: "clicks tr1 = []"
    using clicks_is_poll_active [of d] by simp
  show "snd (loop_body cfg d r True) = Inr True"
    using a by (simp add: loop_body_def prim_defs)
  show "clicks (fst (loop_body cfg d r True)) = []"
    using a k1 by (simp add: loop_body_def prim_defs)
qed

lemma run_loop_answered_active:
  "\<forall>(d, r) \<in> set obs. poll_active d \<Longrightarrow>
   snd (run_loop cfg obs True) = Inr True \<and> clicks (fst (run_loop cfg obs True)) = []"
proof (induction obs)
  case Nil
  then show ?case by (simp add: ret_def)
next
  case (Cons o1 obs)
  obtain d r where o1: "o1 = (d, r)" by (cases o1)
  with Cons.prems have h: "poll_active d" by simp
  obtain tr where st: "loop_body cfg d r True = (tr, Inr True)"
    using loop_body_answered_active(1) [OF h, of cfg r] by (cases "loop_body cfg d r True") simp
  with loop_body_answered_active(2) [OF h, of cfg r] have k: "clicks tr = []" by simp
  from Cons.prems have "\<forall>(d, r) \<in> set obs. poll_active d" by simp
  from Cons.IH [OF this] o1 st k show ?case by simp
qed

lemma loop_body_answers:
  assumes "poll_active d" and "snd (get_answer_choices d) = Inr choices" and "choices \<noteq> []"
  shows "snd (loop_body cfg d r False) = Inr True"
    and "clicks (fst (loop_body cfg d r False)) = [fst (random_choice r choices)]"
proof -
  obtain tr1 where a: "is_poll_active d = (tr1, Inr True)"
    using is_poll_active_returns [of d] assms(1) by auto
  obtain tr2 where c: "get_answer_choices d = (tr2, Inr choices)"
    using assms(2) by (cases "get_answer_choices d") simp
  from a have k1: "clicks tr1 = []"
    using clicks_is_poll_active [of d] by simp
  from c have k2: "clicks tr2 = []"
    using clicks_get_answer_choices [of d] by simp
  show "snd (loop_body cfg d r False) = Inr True"
    using a c assms(3)
    by (simp add: loop_body_def prim_defs select_random_answer_nonempty Let_def)
  show "clicks (fst (loop_body cfg d r False)) = [fst (random_choice r choices)]"
    using a c assms(3) k1 k2
    by (simp add: loop_body_def prim_defs select_random_answer_nonempty Let_def
        split: sum.splits)
qed

text \<open>
  C10. When the poll is active, not yet answered, and choice enumeration returns a
  non-empty list, the iteration ends with the flag true whatever the click did; over the
  following observations of the same active run no further click is attempted, so the
  one click of the run, failed or not, is its only one.
\<close>

theorem failed_click_not_retried:
  assumes "poll_active d" and "snd (get_answer_choices d) = Inr choices" and "choices \<noteq> []"
    and "\<forall>(d', r') \<in> set rest. poll_active d'"
  shows "snd (loop_body cfg d r False) = Inr True
    \<and> clicks (fst (loop_body cfg d r False)) = [fst (random_choice r choices)]
    \<and> snd (run_loop cfg ((d, r) # rest) False) = Inr True
    \<and> clicks (fst (run_loop cfg ((d, r) # rest) False)) = [fst (random_choice r choices)]"
proof -
  note b = loop_body_answers [OF assms(1-3), of cfg r]
  obtain tr where st: "loop_body cfg d r False = (tr, Inr True)"
    using b(1) by (cases "loop_body cfg d r False") simp
  with b(2) have k: "clicks tr = [fst (random_choice r choices)]" by simp
  from run_loop_answered_active [OF assms(4), of cfg] st k b show ?thesis by simp
qed

lemma poll_active_page_blocked: "poll_active page_blocked"
  by (simp add: poll_active_def page_blocked_def blocked_A_def is_poll_active_of_body
      is_poll_active_body_def prim_defs letters_def example_defs)

lemma choices_page_blocked: "snd (get_answer_choices page_blocked) = Inr [(blocked_A, ''A'')]"
  by (simp add: page_blocked_def get_answer_choices_of_body get_answer_choices_body_def
      prim_defs letters_def example_defs blocked_A_def)

theorem failed_click_not_retried_witness:
  "poll_active page_blocked
   \<and> snd (get_answer_choices page_blocked) = Inr [(blocked_A, ''A'')]
   \<and> click blocked_A = Inl ElementNotInteractableException
   \<and> snd (loop_body cfg5 page_blocked 0 False) = Inr True
   \<and> clicks (fst (run_loop cfg5 [(page_blocked, 0), (page_blocked, 1), (page_blocked, 2)] False))
       = [blocked_A]
   \<and> snd (run_loop cfg5 [(page_blocked, 0), (page_blocked, 1), (page_blocked, 2)] False) = Inr True"
proof -
  have n: "[(blocked_A, ''A'')] \<noteq> []" by simp
  have r: "\<forall>(d', r') \<in> set [(page_blocked, 1::nat), (page_blocked, 2)]. poll_active d'"
    by (simp add: poll_active_page_blocked)
  have c: "click blocked_A = Inl ElementNotInteractableException"
    by (simp add: blocked_A_def)
  from failed_click_not_retried [OF poll_active_page_blocked choices_page_blocked n r, of cfg5 0]
    poll_active_page_blocked choices_page_blocked c
  show ?thesis by (simp add: random_choice_def)
qed

section \<open>Properties of choice enumeration\<close>

lemma button_choices_loop_readable:
  "\<forall>b \<in> set bs. readable b \<Longrightarrow>
   button_choices_loop bs acc =
     (map GetText bs,
      Inr (acc @ map (\<lambda>b. (b, strip (text_of b)))
                   (filter (\<lambda>b. strip (text_of b) \<in> set letters) bs)))"
  by (induction bs arbitrary: acc)
     (auto simp: prim_defs readable_def text_of_def Let_def split: sum.splits)

lemma choice_id_of_labelled: "labelled e \<Longrightarrow> snd (choice_id_of e) = Inr (label_of e)"
  by (auto simp: labelled_def label_of_def attr_of_def attr_readable_def choice_id_of_def
      readable_def text_of_def prim_defs split: sum.splits option.splits if_splits)

lemma selector_choices_loop_labelled:
  "\<forall>e \<in> set es. labelled e \<Longrightarrow>
   snd (selector_choices_loop es acc) =
     Inr (acc @ map (\<lambda>e. (e, label_of e)) (filter (\<lambda>e. label_of e \<noteq> []) es))"
proof (induction es arbitrary: acc)
  case Nil
  then show ?case by (simp add: ret_def)
next
  case (Cons e es)
  then have "snd (choice_id_of e) = Inr (label_of e)"
    by (simp add: choice_id_of_labelled)
  then obtain tr where "choice_id_of e = (tr, Inr (label_of e))"
    by (cases "choice_id_of e") simp
  with Cons show ?case by simp
qed

lemma find_choice_id_of: "FindElements b q \<notin> set (fst (choice_id_of e))"
  by (auto simp: choice_id_of_def fst_andthen prim_defs split: sum.splits option.splits)

lemma find_selector_choices_loop: "FindElements b q \<notin> set (fst (selector_choices_loop es acc))"
  by (induction es arbitrary: acc)
     (auto simp: fst_andthen find_choice_id_of prim_defs split: sum.splits)

lemma labels_button_choices_loop:
  "\<forall>c \<in> set acc. snd c \<noteq> [] \<Longrightarrow> snd (button_choices_loop bs acc) = Inr cs \<Longrightarrow>
   \<forall>c \<in> set cs. snd c \<noteq> []"
proof (induction bs arbitrary: acc)
  case Nil
  then show ?case by (simp add: ret_def)
next
  case (Cons b bs)
  show ?case
  proof (cases "elem_text b")
    case (Inl e)
    with Cons.prems show ?thesis by (simp add: prim_defs)
  next
    case (Inr t)
    let ?acc = "if strip t \<in> set letters then acc @ [(b, strip t)] else acc"
    have "\<forall>c \<in> set ?acc. snd c \<noteq> []"
      using Cons.prems(1) by (auto simp: letters_def)
    moreover have "snd (button_choices_loop bs ?acc) = Inr cs"
      using Cons.prems(2) Inr by (simp add: prim_defs Let_def)
    ultimately show ?thesis by (rule Cons.IH)
  qed
qed

lemma labels_selector_choices_loop:
  "\<forall>c \<in> set acc. snd c \<noteq> [] \<Longrightarrow> snd (selector_choices_loop es acc) = Inr cs \<Longrightarrow>
   \<forall>c \<in> set cs. snd c \<noteq> []"
proof (induction es arbitrary: acc)
  case Nil
  then show ?case by (simp add: ret_def)
next
  case (Cons e es)
  obtain tr r where c: "choice_id_of e = (tr, r)" by (cases "choice_id_of e")
  show ?case
  proof (cases r)
    case (Inl x)
    with Cons.prems c show ?thesis by simp
  next
    case (Inr l)
    let ?acc = "if l \<noteq> [] then acc @ [(e, l)] else acc"
    have "\<forall>c \<in> set ?acc. snd c \<noteq> []"
      using Cons.prems(1) by auto
    moreover have "snd (selector_choices_loop es ?acc) = Inr cs"
      using Cons.prems(2) Inr c by simp
    ultimately show ?thesis by (rule Cons.IH)
  qed
qed

lemma get_answer_choices_labels:
  "snd (get_answer_choices d) = Inr cs \<Longrightarrow> \<forall>c \<in> set cs. snd c \<noteq> []"
proof -
  assume r: "snd (get_answer_choices d) = Inr cs"
  show ?thesis
  proof (cases "find_elements d CSS_SELECTOR choice_elements_css")
    case (Inl e)
    with r show ?thesis
      by (auto simp: get_answer_choices_of_body get_answer_choices_body_def prim_defs)
  next
    case (Inr es)
    show ?thesis
    proof (cases "es = []")
      case True
      show ?thesis
      proof (cases "find_elements d TAG_NAME ''button''")
        case (Inl e)
        with r Inr True show ?thesis
          by (auto simp: get_answer_choices_of_body get_answer_choices_body_def prim_defs)
      next
        case bs: (Inr bs)
        obtain tr r' where l: "button_choices_loop bs [] = (tr, r')"
          by (cases "button_choices_loop bs []")
        show ?thesis
        proof (cases r')
          case (Inl e)
          with r Inr True bs l show ?thesis
            by (auto simp: get_answer_choices_of_body get_answer_choices_body_def prim_defs)
        next
          case cs': (Inr cs')
          with r Inr True bs l have "cs' = cs"
            by (auto simp: get_answer_choices_of_body get_answer_choices_body_def prim_defs)
          with l cs' labels_button_choices_loop [of "[]" bs cs] show ?thesis by simp
        qed
      qed
    next
      case False
      obtain tr r' where l: "selector_choices_loop es [] = (tr, r')"
        by (cases "selector_choices_loop es []")
      show ?thesis
      proof (cases r')
        case (Inl e)
        with r Inr False l show ?thesis
          by (auto simp: get_answer_choices_of_body get_answer_choices_body_def prim_defs)
      next
        case cs': (Inr cs')
        with r Inr False l have "cs' = cs"
          by (auto simp: get_answer_choices_of_body get_answer_choices_body_def prim_defs)
        with l cs' labels_selector_choices_loop [of "[]" es cs] show ?thesis by simp
      qed
    qed
  qed
qed

lemma get_answer_choices_fallback_only:
  assumes "FindElements TAG_NAME ''button'' \<in> set (fst (get_answer_choices d))"
  shows "find_elements d CSS_SELECTOR choice_elements_css = Inr []"
proof (cases "find_elements d CSS_SELECTOR choice_elements_css")
  case (Inl e)
  with assms show ?thesis
    by (auto simp: get_answer_choices_of_body get_answer_choices_body_def prim_defs)
next
  case (Inr es)
  show ?thesis
  proof (cases "es = []")
    case True
    with Inr show ?thesis by simp
  next
    case False
    obtain tr r' where l: "selector_choices_loop es [] = (tr, r')"
      by (cases "selector_choices_loop es []")
    with find_selector_choices_loop [of TAG_NAME "''button''" es "[]"]
    have "FindElements TAG_NAME ''button'' \<notin> set tr" by simp
    with assms Inr False l show ?thesis
      by (cases r')
         (auto simp: get_answer_choices_of_body get_answer_choices_body_def prim_defs)
  qed
qed

lemma get_answer_choices_fallback_used:
  assumes "find_elements d CSS_SELECTOR choice_elements_css = Inr []"
  shows "FindElements TAG_NAME ''button'' \<in> set (fst (get_answer_choices d))"
proof -
  have "fst (get_answer_choices_body d) =
      FindElements CSS_SELECTOR choice_elements_css # FindElements TAG_NAME ''button'' #
        drop 2 (fst (get_answer_choices_body d))"
    using assms
    by (simp add: get_answer_choices_body_def fst_andthen call_find_elements_def
        split: sum.splits)
  then have "FindElements TAG_NAME ''button'' \<in> set (fst (get_answer_choices_body d))"
    by (metis list.set_intros(1,2))
  then show ?thesis
    by (cases "get_answer_choices_body d")
       (auto simp: get_answer_choices_of_body split: sum.splits)
qed

lemma get_answer_choices_fallback:
  assumes "find_elements d CSS_SELECTOR choice_elements_css = Inr []"
    and "find_elements d TAG_NAME ''button'' = Inr bs"
    and "\<forall>b \<in> set bs. readable b"
  shows "snd (get_answer_choices d) =
     Inr (map (\<lambda>b. (b, strip (text_of b)))
            (filter (\<lambda>b. strip (text_of b) = ''A'' \<or> strip (text_of b) = ''B'') bs))"
  using assms
  by (simp add: get_answer_choices_of_body get_answer_choices_body_def prim_defs
      button_choices_loop_readable letters_def)

lemma get_answer_choices_primary:
  assumes "find_elements d CSS_SELECTOR choice_elements_css = Inr es" and "es \<noteq> []"
    and "\<forall>e \<in> set es. labelled e"
  shows "snd (get_answer_choices d) =
     Inr (map (\<lambda>e. (e, label_of e)) (filter (\<lambda>e. label_of e \<noteq> []) es))"
proof -
  from selector_choices_loop_labelled [OF assms(3), of "[]"]
  obtain tr where "selector_choices_loop es [] =
      (tr, Inr (map (\<lambda>e. (e, label_of e)) (filter (\<lambda>e. label_of e \<noteq> []) es)))"
    by (cases "selector_choices_loop es []") simp
  with assms(1,2) show ?thesis
    by (simp add: get_answer_choices_of_body get_answer_choices_body_def prim_defs)
qed

lemma get_answer_choices_raises:
  "snd (get_answer_choices_body d) = Inl e \<Longrightarrow> snd (get_answer_choices d) = Inr []"
  by (cases "get_answer_choices_body d") (simp add: get_answer_choices_of_body)

text \<open>
  C7. \<open>get_answer_choices\<close> queries the buttons exactly when the selector query answers
  the empty list. The button fallback, on buttons whose text can be read, returns exactly
  the buttons whose trimmed text is "A" or "B", in page order, each with that text as its
  label. The selector strategy, on elements whose label can be read, returns the elements
  whose label (the \<^verbatim>\<open>data-choice\<close> attribute, or the trimmed text when the attribute
  is absent or empty) is not empty. The function always returns a list, whose labels are
  all non-empty; when its \<^verbatim>\<open>try\<close> block raises, the list is empty.
\<close>

theorem get_answer_choices_enumeration:
  "(FindElements TAG_NAME ''button'' \<in> set (fst (get_answer_choices d)) \<longleftrightarrow>
      find_elements d CSS_SELECTOR choice_elements_css = Inr [])
   \<and> (find_elements d CSS_SELECTOR choice_elements_css = Inr []
        \<and> find_elements d TAG_NAME ''button'' = Inr bs \<and> (\<forall>b \<in> set bs. readable b) \<longrightarrow>
      snd (get_answer_choices d) =
        Inr (map (\<lambda>b. (b, strip (text_of b)))
               (filter (\<lambda>b. strip (text_of b) = ''A'' \<or> strip (text_of b) = ''B'') bs)))
   \<and> (find_elements d CSS_SELECTOR choice_elements_css = Inr es \<and> es \<noteq> []
        \<and> (\<forall>e \<in> set es. labelled e) \<longrightarrow>
      snd (get_answer_choices d) =
        Inr (map (\<lambda>e. (e, label_of e)) (filter (\<lambda>e. label_of e \<noteq> []) es)))
   \<and> (\<exists>cs. snd (get_answer_choices d) = Inr cs \<and> (\<forall>c \<in> set cs. snd c \<noteq> []))
   \<and> ((\<exists>e. snd (get_answer_choices_body d) = Inl e) \<longrightarrow> snd (get_answer_choices d) = Inr [])"
proof -
  obtain tr cs where "get_answer_choices d = (tr, Inr cs)"
    using get_answer_choices_returns by blast
  then have "\<exists>cs. snd (get_answer_choices d) = Inr cs \<and> (\<forall>c \<in> set cs. snd c \<noteq> [])"
    using get_answer_choices_labels [of d cs] by simp
  then show ?thesis
    using get_answer_choices_fallback_only [of d] get_answer_choices_fallback_used [of d]
      get_answer_choices_fallback [of d bs]
      get_answer_choices_primary [of d es] get_answer_choices_raises [of d]
    by blast
qed

lemmas option_defs = option_blank_def option_B_def button_C_def option_padded_def
  option_wide_blank_def labelled_def label_of_def
  attr_of_def attr_readable_def

theorem get_answer_choices_enumeration_witness:
  "find_elements page_letters CSS_SELECTOR choice_elements_css = Inr []
   \<and> find_elements page_letters TAG_NAME ''button'' = Inr [button_next, button_A, button_B, button_C, button_A_nbsp]
   \<and> readable button_next \<and> readable button_A \<and> readable button_B \<and> readable button_C
   \<and> readable button_A_nbsp
   \<and> FindElements TAG_NAME ''button'' \<in> set (fst (get_answer_choices page_letters))
   \<and> snd (get_answer_choices page_letters) = Inr [(button_A, ''A''), (button_B, ''B''), (button_A_nbsp, ''A'')]
   \<and> find_elements page_options CSS_SELECTOR choice_elements_css
       = Inr [option_yes, option_blank, option_B, option_padded, option_wide_blank]
   \<and> labelled option_yes \<and> labelled option_blank \<and> labelled option_B
   \<and> labelled option_padded \<and> labelled option_wide_blank
   \<and> FindElements TAG_NAME ''button'' \<notin> set (fst (get_answer_choices page_options))
   \<and> snd (get_answer_choices page_options) = Inr [(option_yes, ''yes''), (option_B, ''B''), (option_padded, ''B'')]
   \<and> snd (get_answer_choices_body page_timeout) = Inl TimeoutException
   \<and> snd (get_answer_choices page_timeout) = Inr []"
proof -
  let ?bs = "[button_next, button_A, button_B, button_C, button_A_nbsp]"
  let ?es = "[option_yes, option_blank, option_B, option_padded, option_wide_blank]"
  have l1: "find_elements page_letters CSS_SELECTOR choice_elements_css = Inr []"
    by (simp add: page_letters_def page_def)
  have l2: "find_elements page_letters TAG_NAME ''button'' = Inr ?bs"
    by (simp add: page_letters_def page_def)
  have l3: "readable button_next \<and> readable button_A \<and> readable button_B \<and> readable button_C
   \<and> readable button_A_nbsp"
    by (simp add: example_defs option_defs)
  then have l4: "\<forall>b \<in> set ?bs. readable b" by simp
  have l5: "FindElements TAG_NAME ''button'' \<in> set (fst (get_answer_choices page_letters))"
    using l1 by (rule get_answer_choices_fallback_used)
  have l6: "map (\<lambda>b. (b, strip (text_of b)))
      (filter (\<lambda>b. strip (text_of b) = ''A'' \<or> strip (text_of b) = ''B'') ?bs)
      = [(button_A, ''A''), (button_B, ''B''), (button_A_nbsp, ''A'')]"
    by (simp add: example_defs option_defs)
  have o1: "find_elements page_options CSS_SELECTOR choice_elements_css = Inr ?es"
    by (simp add: page_options_def page_def)
  have o2: "labelled option_yes \<and> labelled option_blank \<and> labelled option_B
   \<and> labelled option_padded \<and> labelled option_wide_blank"
    by (simp add: example_defs option_defs)
  then have o3: "\<forall>e \<in> set ?es. labelled e" by simp
  have o4: "map (\<lambda>e. (e, label_of e)) (filter (\<lambda>e. label_of e \<noteq> []) ?es)
      = [(option_yes, ''yes''), (option_B, ''B''), (option_padded, ''B'')]"
    by (simp add: example_defs option_defs)
  have t1: "snd (get_answer_choices_body page_timeout) = Inl TimeoutException"
    by (simp add: get_answer_choices_body_def prim_defs page_timeout_def page_def)
  from get_answer_choices_enumeration [of page_letters ?bs ?es] l1 l2 l4 l6
  have r1: "snd (get_answer_choices page_letters) = Inr [(button_A, ''A''), (button_B, ''B''), (button_A_nbsp, ''A'')]"
    by simp
  from get_answer_choices_enumeration [of page_options ?bs ?es] o1 o3 o4
  have r2: "FindElements TAG_NAME ''button'' \<notin> set (fst (get_answer_choices page_options))"
    and r3: "snd (get_answer_choices page_options) = Inr [(option_yes, ''yes''), (option_B, ''B''), (option_padded, ''B'')]"
    by auto
  from get_answer_choices_enumeration [of page_timeout ?bs ?es] t1
  have r4: "snd (get_answer_choices page_timeout) = Inr []"
    by simp
  from l1 l2 l3 l5 r1 o1 o2 r2 r3 t1 r4 show ?thesis by simp
qed

section \<open>Properties of the login form scan\<close>

lemma last_match_Cons:
  "last_match P (x # xs) dflt = last_match P xs (if P x then Some x else dflt)"
  by (auto simp: last_match_def split: list.splits)

lemma inputs_loop_readable:
  "\<forall>e \<in> set ins. input_readable e \<Longrightarrow>
   snd (inputs_loop ins found) =
     Inr (last_match is_username_candidate ins (fst found),
          last_match is_password_candidate ins (snd found))"
proof (induction ins arbitrary: found)
  case Nil
  then show ?case by (simp add: ret_def last_match_def)
next
  case (Cons e ins)
  from Cons.prems have r: "input_readable e" by simp
  then obtain t p where t: "get_attribute e ''type'' = Inr t"
    and p: "get_attribute e ''placeholder'' = Inr p"
    by (auto simp: input_readable_def attr_readable_def split: sum.splits)
  have ph: "(case p of Some v \<Rightarrow> (if v \<noteq> [] then v else []) | None \<Rightarrow> []) = placeholder_of e"
    using p by (auto simp: placeholder_of_def attr_of_def split: option.splits)
  have ty: "attr_of e ''type'' = t"
    using t by (simp add: attr_of_def)
  from Cons.prems have "\<forall>e \<in> set ins. input_readable e" by simp
  note ih = Cons.IH [OF this]
  show ?case
    using t p
    by (simp add: read_attribute_def Let_def ph ih last_match_Cons
        is_username_candidate_def is_password_candidate_def ty)
qed

lemma buttons_loop_readable:
  "\<forall>b \<in> set bs. readable b \<Longrightarrow>
   snd (buttons_loop bs login_button) = Inr (last_match is_login_candidate bs login_button)"
proof (induction bs arbitrary: login_button)
  case Nil
  then show ?case by (simp add: ret_def last_match_def)
next
  case (Cons b bs)
  from Cons.prems obtain t where t: "elem_text b = Inr t"
    by (auto simp: readable_def split: sum.splits)
  then have tx: "text_of b = t" by (simp add: text_of_def)
  from Cons.prems have "\<forall>b \<in> set bs. readable b" by simp
  note ih = Cons.IH [OF this]
  show ?case
    using t by (simp add: read_text_def Let_def ih last_match_Cons is_login_candidate_def tx)
qed

lemma form_inputs_loop: "filter is_form_action (fst (inputs_loop ins found)) = []"
  by (induction ins arbitrary: found)
     (auto simp: fst_andthen prim_defs Let_def split: sum.splits)

lemma form_buttons_loop: "filter is_form_action (fst (buttons_loop bs lb)) = []"
  by (induction bs arbitrary: lb)
     (auto simp: fst_andthen prim_defs Let_def split: sum.splits)

lemma last_match_None: "last_match P xs None = None \<longleftrightarrow> filter P xs = []"
  by (auto simp: last_match_def split: list.splits)

lemma login_body_scanned:
  assumes "find_elements d TAG_NAME ''input'' = Inr ins" and "\<forall>e \<in> set ins. input_readable e"
    and "find_elements d TAG_NAME ''button'' = Inr bs" and "\<forall>b \<in> set bs. readable b"
  shows "\<exists>tr. filter is_form_action tr = [] \<and>
     login_body user pass d =
       andthen (tr, Inr ())
         (\<lambda>_. case (last_match is_username_candidate ins None,
                     last_match is_password_candidate ins None,
                     last_match is_login_candidate bs None) of
            (Some username_field, Some password_field, Some button) \<Rightarrow>
               andthen (do_send_keys username_field user) (\<lambda>_.
               andthen (do_send_keys password_field pass) (\<lambda>_.
               andthen (do_click button) (\<lambda>_.
               andthen (log INFO LoginSuccessful) (\<lambda>_.
                 ret True))))
          | _ \<Rightarrow> andthen (log WARNING NoLoginForm) (\<lambda>_. ret False))"
proof -
  obtain tr1 where i: "inputs_loop ins (None, None) =
      (tr1, Inr (last_match is_username_candidate ins None,
                 last_match is_password_candidate ins None))"
    using inputs_loop_readable [OF assms(2), of "(None, None)"]
    by (cases "inputs_loop ins (None, None)") simp
  obtain tr2 where b: "buttons_loop bs None = (tr2, Inr (last_match is_login_candidate bs None))"
    using buttons_loop_readable [OF assms(4), of None]
    by (cases "buttons_loop bs None") simp
  have f1: "filter is_form_action tr1 = []"
    using form_inputs_loop [of ins "(None, None)"] i by simp
  have f2: "filter is_form_action tr2 = []"
    using form_buttons_loop [of bs None] b by simp
  let ?tr = "[Log INFO AttemptingLogin, FindElements TAG_NAME ''input''] @ tr1
      @ [FindElements TAG_NAME ''button''] @ tr2"
  have "filter is_form_action ?tr = []"
    using f1 f2 by simp
  moreover have "login_body user pass d =
       andthen (?tr, Inr ())
         (\<lambda>_. case (last_match is_username_candidate ins None,
                     last_match is_password_candidate ins None,
                     last_match is_login_candidate bs None) of
            (Some username_field, Some password_field, Some button) \<Rightarrow>
               andthen (do_send_keys username_field user) (\<lambda>_.
               andthen (do_send_keys password_field pass) (\<lambda>_.
               andthen (do_click button) (\<lambda>_.
               andthen (log INFO LoginSuccessful) (\<lambda>_.
                 ret True))))
          | _ \<Rightarrow> andthen (log WARNING NoLoginForm) (\<lambda>_. ret False))"
    using assms(1,3) i b
    by (simp add: login_body_def log_def call_find_elements_def split: option.splits)
  ultimately show ?thesis by blast
qed

lemma last_match_Some: "filter P xs \<noteq> [] \<Longrightarrow> last_match P xs dflt = Some (last (filter P xs))"
  by (auto simp: last_match_def split: list.splits)

text \<open>
  When each of the three has a candidate, \<open>login\<close> uses the last candidate of each,
  however many there are.
\<close>

lemma login_fills_last_candidates:
  assumes "find_elements d TAG_NAME ''input'' = Inr ins" and "\<forall>e \<in> set ins. input_readable e"
    and "find_elements d TAG_NAME ''button'' = Inr bs" and "\<forall>b \<in> set bs. readable b"
    and "truthy (username cfg)" and "truthy (password cfg)"
    and "filter is_username_candidate ins \<noteq> []" and "filter is_password_candidate ins \<noteq> []"
    and "filter is_login_candidate bs \<noteq> []"
    and "send_keys (last (filter is_username_candidate ins)) (str_of (username cfg)) = Inr ()"
    and "send_keys (last (filter is_password_candidate ins)) (str_of (password cfg)) = Inr ()"
    and "click (last (filter is_login_candidate bs)) = Inr ()"
  shows "snd (login cfg d) = Inr True"
    and "filter is_form_action (fst (login cfg d)) =
      [SendKeys (last (filter is_username_candidate ins)) (str_of (username cfg)),
       SendKeys (last (filter is_password_candidate ins)) (str_of (password cfg)),
       Click (last (filter is_login_candidate bs))]"
proof -
  from login_body_scanned [OF assms(1-4), of "str_of (username cfg)" "str_of (password cfg)"]
  obtain tr where f: "filter is_form_action tr = []"
    and b: "login_body (str_of (username cfg)) (str_of (password cfg)) d =
       andthen (tr, Inr ())
         (\<lambda>_. case (last_match is_username_candidate ins None,
                     last_match is_password_candidate ins None,
                     last_match is_login_candidate bs None) of
            (Some username_field, Some password_field, Some button) \<Rightarrow>
               andthen (do_send_keys username_field (str_of (username cfg))) (\<lambda>_.
               andthen (do_send_keys password_field (str_of (password cfg))) (\<lambda>_.
               andthen (do_click button) (\<lambda>_.
               andthen (log INFO LoginSuccessful) (\<lambda>_.
                 ret True))))
          | _ \<Rightarrow> andthen (log WARNING NoLoginForm) (\<lambda>_. ret False))"
    by blast
  have "login_body (str_of (username cfg)) (str_of (password cfg)) d =
      (tr @ [SendKeys (last (filter is_username_candidate ins)) (str_of (username cfg)),
             SendKeys (last (filter is_password_candidate ins)) (str_of (password cfg)),
             Click (last (filter is_login_candidate bs)), Log INFO LoginSuccessful], Inr True)"
    using b assms(7-12) by (simp add: last_match_Some prim_defs)
  with assms(5,6) f show "snd (login cfg d) = Inr True"
    and "filter is_form_action (fst (login cfg d)) =
      [SendKeys (last (filter is_username_candidate ins)) (str_of (username cfg)),
       SendKeys (last (filter is_password_candidate ins)) (str_of (password cfg)),
       Click (last (filter is_login_candidate bs))]"
    by (simp_all add: login_def)
qed

text \<open>
  Only \<^verbatim>\<open>TimeoutException\<close> and \<^verbatim>\<open>NoSuchElementException\<close> are caught in \<open>login\<close>:
  any other exception of a query leaves \<open>login\<close>.
\<close>

lemma login_propagates:
  assumes "truthy (username cfg)" and "truthy (password cfg)"
    and "find_elements d TAG_NAME ''input'' = Inl e" and "\<not> timeout_or_no_such_element e"
  shows "snd (login cfg d) = Inl e"
  using assms by (simp add: login_def login_body_def prim_defs)

text \<open>
  C9, as amended. On a page whose inputs and buttons can be queried and read, when the
  username field, the password field or the login button has no candidate, \<open>login\<close>
  returns false without typing into any field or clicking any button; it returns
  normally, so the caller goes on, and with credentials given its last act is the warning
  that the form could not be identified.
\<close>

theorem login_not_attempted:
  assumes "find_elements d TAG_NAME ''input'' = Inr ins" and "\<forall>e \<in> set ins. input_readable e"
    and "find_elements d TAG_NAME ''button'' = Inr bs" and "\<forall>b \<in> set bs. readable b"
    and "filter is_username_candidate ins = [] \<or> filter is_password_candidate ins = []
         \<or> filter is_login_candidate bs = []"
  shows "snd (login cfg d) = Inr False
    \<and> filter is_form_action (fst (login cfg d)) = []
    \<and> (truthy (username cfg) \<and> truthy (password cfg) \<longrightarrow>
         last (fst (login cfg d)) = Log WARNING NoLoginForm)"
proof (cases "truthy (username cfg) \<and> truthy (password cfg)")
  case False
  then show ?thesis by (auto simp: login_def log_def ret_def)
next
  case True
  from login_body_scanned [OF assms(1-4), of "str_of (username cfg)" "str_of (password cfg)"]
  obtain tr where f: "filter is_form_action tr = []"
    and b: "login_body (str_of (username cfg)) (str_of (password cfg)) d =
       andthen (tr, Inr ())
         (\<lambda>_. case (last_match is_username_candidate ins None,
                     last_match is_password_candidate ins None,
                     last_match is_login_candidate bs None) of
            (Some username_field, Some password_field, Some button) \<Rightarrow>
               andthen (do_send_keys username_field (str_of (username cfg))) (\<lambda>_.
               andthen (do_send_keys password_field (str_of (password cfg))) (\<lambda>_.
               andthen (do_click button) (\<lambda>_.
               andthen (log INFO LoginSuccessful) (\<lambda>_.
                 ret True))))
          | _ \<Rightarrow> andthen (log WARNING NoLoginForm) (\<lambda>_. ret False))"
    by blast
  from assms(5) have "last_match is_username_candidate ins None = None
      \<or> last_match is_password_candidate ins None = None
      \<or> last_match is_login_candidate bs None = None"
    by (simp add: last_match_None)
  then have "login_body (str_of (username cfg)) (str_of (password cfg)) d =
      (tr @ [Log WARNING NoLoginForm], Inr False)"
    using b by (auto simp: log_def ret_def split: option.splits)
  with True f show ?thesis
    by (simp add: login_def)
qed

lemmas login_defs = input_name_def input_user_def input_pass_def button_login_def
  cfg_ann_def page_two_users_def page_no_button_def placeholder_of_def
  is_username_candidate_def is_password_candidate_def is_login_candidate_def
  input_readable_def attr_of_def attr_readable_def is_username_input_def
  is_password_input_def is_login_text_def lower_def lower_char_def char_of_def bit_iff_odd

theorem login_not_attempted_witness:
  "find_elements page_no_button TAG_NAME ''input'' = Inr [input_name, input_user, input_pass]
   \<and> input_readable input_name \<and> input_readable input_user \<and> input_readable input_pass
   \<and> find_elements page_no_button TAG_NAME ''button'' = Inr [button_next]
   \<and> readable button_next
   \<and> filter is_login_candidate [button_next] = []
   \<and> truthy (username cfg_ann) \<and> truthy (password cfg_ann)
   \<and> snd (login cfg_ann page_no_button) = Inr False
   \<and> filter is_form_action (fst (login cfg_ann page_no_button)) = []
   \<and> last (fst (login cfg_ann page_no_button)) = Log WARNING NoLoginForm"
proof -
  let ?ins = "[input_name, input_user, input_pass]"
  have a1: "find_elements page_no_button TAG_NAME ''input'' = Inr ?ins"
    by (simp add: page_no_button_def page_def)
  have a2: "input_readable input_name \<and> input_readable input_user \<and> input_readable input_pass"
    by (simp add: login_defs example_defs)
  then have a2': "\<forall>e \<in> set ?ins. input_readable e" by simp
  have a3: "find_elements page_no_button TAG_NAME ''button'' = Inr [button_next]"
    by (simp add: page_no_button_def page_def)
  have a4: "readable button_next"
    by (simp add: example_defs)
  then have a4': "\<forall>b \<in> set [button_next]. readable b" by simp
  have a5: "filter is_login_candidate [button_next] = []"
    by (simp add: login_defs example_defs)
  then have a5': "filter is_username_candidate ?ins = [] \<or> filter is_password_candidate ?ins = []
         \<or> filter is_login_candidate [button_next] = []"
    by simp
  have a6: "truthy (username cfg_ann) \<and> truthy (password cfg_ann)"
    by (simp add: cfg_ann_def truthy_def)
  from login_not_attempted [OF a1 a2' a3 a4' a5', of cfg_ann] a1 a2 a3 a4 a5 a6
  show ?thesis by simp
qed

text \<open>
  C9, as stated, fails where a field has more than one candidate: with two inputs that
  match the username heuristics, \<open>login\<close> types the username into the last of them,
  types the password, clicks the button and returns true.
\<close>

theorem login_ambiguous_counterexample:
  "find_elements page_two_users TAG_NAME ''input'' = Inr [input_name, input_user, input_pass]
   \<and> filter is_username_candidate [input_name, input_user, input_pass] = [input_name, input_user]
   \<and> snd (login cfg_ann page_two_users) = Inr True
   \<and> filter is_form_action (fst (login cfg_ann page_two_users))
       = [SendKeys input_user ''ann'', SendKeys input_pass ''secret'', Click button_login]"
proof -
  have c1: "find_elements page_two_users TAG_NAME ''input'' = Inr [input_name, input_user, input_pass]"
    by (simp add: page_two_users_def page_def)
  have c2: "filter is_username_candidate [input_name, input_user, input_pass]
      = [input_name, input_user]"
    by (simp add: login_defs example_defs)
  have c3: "login cfg_ann page_two_users =
     ([Log INFO AttemptingLogin, FindElements TAG_NAME ''input'',
       GetAttribute input_name ''type'', GetAttribute input_name ''placeholder'',
       GetAttribute input_user ''type'', GetAttribute input_user ''placeholder'',
       GetAttribute input_pass ''type'', GetAttribute input_pass ''placeholder'',
       FindElements TAG_NAME ''button'', GetText button_next, GetText button_login,
       SendKeys input_user ''ann'', SendKeys input_pass ''secret'', Click button_login,
       Log INFO LoginSuccessful], Inr True)"
    by (simp add: login_def login_body_def truthy_def str_of_def prim_defs
        login_defs example_defs)
  from c1 c2 c3 show ?thesis by simp
qed

section \<open>Further facts about the main loop\<close>

text \<open>
  Without any assumption on choice enumeration, the flag is true after an iteration only
  if the poll was observed active in it, and an iteration never raises.
\<close>

lemma loop_body_flag_only_when_active:
  "\<exists>tr pa'. loop_body cfg d r pa = (tr, Inr pa') \<and> (pa' \<longrightarrow> poll_active d)"
proof -
  obtain tr1 where a: "is_poll_active d = (tr1, Inr (poll_active d))"
    using is_poll_active_returns by blast
  obtain tr2 cs where c: "get_answer_choices d = (tr2, Inr cs)"
    using get_answer_choices_returns by blast
  show ?thesis
    using a c
    by (auto simp: loop_body_def prim_defs select_random_answer_nonempty Let_def)
qed

text \<open>
  The five observations (inactive, active, active, inactive, active) on the example
  pages: the two clicks are the one drawn when the poll is first seen and the one drawn
  when the next poll is first seen.
\<close>

lemma is_poll_active_page_off:
  "is_poll_active page_off = ([FindElements XPATH no_poll_xpath], Inr False)"
  by (simp add: page_off_def is_poll_active_of_body is_poll_active_body_def prim_defs page_def)

lemma is_poll_active_page_on:
  "is_poll_active page_on =
     ([FindElements XPATH no_poll_xpath, FindElements CSS_SELECTOR answer_buttons_css,
       FindElements TAG_NAME ''button'', GetText button_A, GetText button_B], Inr True)"
  by (simp add: page_on_def is_poll_active_of_body is_poll_active_body_def prim_defs
      letters_def example_defs)

lemma get_answer_choices_page_on:
  "get_answer_choices page_on =
     ([FindElements CSS_SELECTOR choice_elements_css, FindElements TAG_NAME ''button'',
       GetText button_A, GetText button_B, Log INFO (FoundChoices 2)],
      Inr [(button_A, ''A''), (button_B, ''B'')])"
  by (simp add: page_on_def get_answer_choices_of_body get_answer_choices_body_def prim_defs
      letters_def example_defs)

lemma run_loop_five_observations:
  "clicks (fst (run_loop cfg5
      [(page_off, 0), (page_on, 0), (page_on, 1), (page_off, 0), (page_on, 1)] False))
   = [button_A, button_B]"
  by (simp add: loop_body_def is_poll_active_page_off is_poll_active_page_on
      get_answer_choices_page_on select_random_answer_nonempty random_choice_def Let_def
      log_def sleep_def ret_def split: sum.splits)

end
